theory Spec2Isabelle
  imports Complex_Main "HOL-Library.AList"
begin

section \<open>Go values\<close>

text \<open>
  The adapter moves values of Go's empty interface around: the column data of a
  request (\<^verbatim>\<open>map[string]interface{}\<close>), the decoded JSON of a remote response and
  the decoded schema cache file. A \<^verbatim>\<open>float64\<close> is a rational when it is finite
  (every finite double is one), or one of the three non-finite values.
\<close>

datatype float64 = Finite rat | PosInf | NegInf | NaN

text \<open>
  A dynamic value: \<^verbatim>\<open>nil\<close>, the types the code inspects (\<^verbatim>\<open>string\<close>,
  \<^verbatim>\<open>int\<close>, \<^verbatim>\<open>int64\<close>, \<^verbatim>\<open>float64\<close>), what \<^verbatim>\<open>encoding/json\<close> decodes
  into (\<^verbatim>\<open>bool\<close>, \<^verbatim>\<open>map[string]interface{}\<close>, \<^verbatim>\<open>[]interface{}\<close>), one more
  integer type (\<^verbatim>\<open>int32\<close>) and, as \<open>GOther\<close>, a value of any further type, known
  by the name \<^verbatim>\<open>reflect\<close> prints for it. A Go map is kept as an association list
  read with \<open>map_of\<close> and written with \<open>AList.update\<close>.
\<close>

datatype gval =
    GNil
  | GString string
  | GInt int
  | GInt64 int
  | GInt32 int
  | GFloat64 float64
  | GBool bool
  | GMap "(string \<times> gval) list"
  | GSlice "gval list"
  | GOther string

type_synonym gmap = "(string \<times> gval) list"

text \<open>Indexing a Go map: a missing key reads as \<^verbatim>\<open>nil\<close>.\<close>

definition lookup :: "gmap \<Rightarrow> string \<Rightarrow> gval" where
  "lookup m k = (case map_of m k of None \<Rightarrow> GNil | Some v \<Rightarrow> v)"

text \<open>
  \<^verbatim>\<open>reflect.TypeOf(v)\<close> is the nil \<^verbatim>\<open>Type\<close> for a nil interface value, so
  \<^verbatim>\<open>reflect.TypeOf(v).String()\<close> has no result there (\<open>None\<close>: the call panics).
\<close>

fun typeName :: "gval \<Rightarrow> string option" where
  "typeName GNil = None"
| "typeName (GString s) = Some ''string''"
| "typeName (GInt n) = Some ''int''"
| "typeName (GInt64 n) = Some ''int64''"
| "typeName (GInt32 n) = Some ''int32''"
| "typeName (GFloat64 f) = Some ''float64''"
| "typeName (GBool b) = Some ''bool''"
| "typeName (GMap m) = Some ''map[string]interface {}''"
| "typeName (GSlice xs) = Some ''[]interface {}''"
| "typeName (GOther n) = Some n"

text \<open>
  A call ends in a returned \<^verbatim>\<open>error\<close> (with its message) or in a run-time panic;
  \<open>Inl\<close> of a \<open>failure\<close> is either, \<open>Inr\<close> the normal result.
\<close>

datatype failure = Error string | Panic string

definition nilDeref :: string where
  "nilDeref = ''invalid memory address or nil pointer dereference''"

definition badAssert :: string where
  "badAssert = ''interface conversion''"

section \<open>Library functions the code calls\<close>

subsection \<open>\<^verbatim>\<open>strings.Split\<close> with a one-byte separator\<close>

fun Split :: "string \<Rightarrow> char \<Rightarrow> string list" where
  "Split [] sep = [[]]"
| "Split (c # cs) sep =
     (if c = sep then [] # Split cs sep
      else (case Split cs sep of [] \<Rightarrow> [[c]] | x # xs \<Rightarrow> (c # x) # xs))"

subsection \<open>\<^verbatim>\<open>strconv.Atoi\<close> on a platform whose \<^verbatim>\<open>int\<close> has 64 bits\<close>

definition minInt :: int where
  "minInt = - (2 ^ 63)"

definition maxInt :: int where
  "maxInt = 2 ^ 63 - 1"

definition digit :: "char \<Rightarrow> nat option" where
  "digit c = (let n = (of_char c :: nat) in if 48 \<le> n \<and> n \<le> 57 then Some (n - 48) else None)"

fun digits :: "nat \<Rightarrow> string \<Rightarrow> nat option" where
  "digits n [] = Some n"
| "digits n (c # cs) = (case digit c of None \<Rightarrow> None | Some d \<Rightarrow> digits (n * 10 + d) cs)"

text \<open>
  An optional sign, then one or more decimal digits, and the value must fit \<^verbatim>\<open>int\<close>;
  anything else is a \<^verbatim>\<open>*NumError\<close> (\<open>None\<close>).
\<close>

definition Atoi :: "string \<Rightarrow> int option" where
  "Atoi s =
     (case s of
        [] \<Rightarrow> None
      | c # cs \<Rightarrow>
          (let body = (if c = CHR ''-'' \<or> c = CHR ''+'' then cs else s) in
           if body = [] then None
           else (case digits 0 body of
                   None \<Rightarrow> None
                 | Some n \<Rightarrow>
                     (let num = (if c = CHR ''-'' then - int n else int n) in
                      if minInt \<le> num \<and> num \<le> maxInt then Some num else None))))"

text \<open>
  \<^verbatim>\<open>strconv.Itoa\<close>, the decimal notation of an \<^verbatim>\<open>int\<close> (the usage examples
  render their timestamps with it).
\<close>

fun natStr :: "nat \<Rightarrow> string" where
  "natStr n = (if n < 10 then [char_of (48 + n)] else natStr (n div 10) @ [char_of (48 + n mod 10)])"

declare natStr.simps [simp del]

definition Itoa :: "int \<Rightarrow> string" where
  "Itoa i = (if i < 0 then CHR ''-'' # natStr (nat (- i)) else natStr (nat i))"

subsection \<open>The conversion \<^verbatim>\<open>int(f)\<close> of a \<^verbatim>\<open>float64\<close>\<close>

text \<open>
  The fraction is discarded. Where the result does not fit \<^verbatim>\<open>int\<close> (and for NaN
  and the infinities) Go leaves the value to the implementation: it is \<open>oor f\<close>, for a
  function \<open>oor\<close> the platform fixes.
\<close>

definition truncRat :: "rat \<Rightarrow> int" where
  "truncRat q = (if 0 \<le> q then \<lfloor>q\<rfloor> else \<lceil>q\<rceil>)"

definition float64ToInt :: "(float64 \<Rightarrow> int) \<Rightarrow> float64 \<Rightarrow> int" where
  "float64ToInt oor f =
     (case f of
        Finite q \<Rightarrow> (if minInt \<le> truncRat q \<and> truncRat q \<le> maxInt then truncRat q else oor f)
      | _ \<Rightarrow> oor f)"

section \<open>Requests, payloads and the world around a call\<close>

record OMNiInterface =
  URL :: string
  User :: string
  Password :: string
  Timeout :: float64
  PayloadStructCacheDir :: string

text \<open>
  The payload of a write: \<^verbatim>\<open>{"rowset": {"coldesc": [...], "rows": [...]}}\<close>, both
  entries slices of maps.
\<close>

record rowset =
  coldesc :: "gmap list"
  rows :: "gmap list"

text \<open>
  \<open>ColumnData\<close> lists the entries of the Go map in the order \<^verbatim>\<open>range\<close> visits
  them in this call (Go leaves that order open); its keys are distinct.
\<close>

record Request =
  Method :: string
  DBPath :: string
  Filter :: string
  ColumnData :: gmap
  Collist :: "string list"
  Payload :: "rowset option"

record http_request =
  h_method :: string
  h_url :: string
  h_user :: string
  h_password :: string
  h_body :: "rowset option"

text \<open>
  What \<^verbatim>\<open>os.Stat\<close> reports for a path: no error, the error \<^verbatim>\<open>os.IsNotExist\<close>
  recognises, or any other error (a path below a regular file, a directory that may
  not be searched). The code asks \<^verbatim>\<open>os.IsNotExist\<close> only, so it treats the third
  like the first.
\<close>

datatype stat = StatOK | StatNotExist | StatOther

text \<open>
  A path of the cache directory that \<^verbatim>\<open>os.Stat\<close> does not report as not existing,
  as \<^verbatim>\<open>ioutil.ReadFile\<close> and \<^verbatim>\<open>json.Unmarshal\<close> into a
  \<^verbatim>\<open>map[string]interface{}\<close> see it: the JSON object the file holds, or \<open>Corrupt\<close>
  for everything else (a file that cannot be read or does not hold a JSON object, a
  path on which \<^verbatim>\<open>os.Stat\<close> fails with another error).
\<close>

datatype cache_file = Schema gmap | Corrupt

text \<open>
  The world of a call: what \<^verbatim>\<open>os.Stat\<close> reports for a directory and whether
  \<^verbatim>\<open>os.MkdirAll\<close> can make it; the cache files, where \<open>files w p = None\<close> says
  that \<^verbatim>\<open>os.Stat\<close> reports \<open>p\<close> as not existing (the one case in which the code
  fetches), and whether a file can be written; the URLs \<^verbatim>\<open>http.NewRequest\<close>
  accepts; the remote service (for a request, the transport error of
  \<^verbatim>\<open>client.Do\<close> or the decoded body, the nil map when the body is no JSON object);
  the requests sent so far; \<^verbatim>\<open>url.QueryEscape\<close>; and the platform's out-of-range
  float conversion. Timeouts and the HTTP status are not part of it: the code reads the
  body whatever the status.
\<close>

record world =
  dirStat :: "string \<Rightarrow> stat"
  canMkdir :: "string \<Rightarrow> bool"
  files :: "string \<rightharpoonup> cache_file"
  canWrite :: "string \<Rightarrow> bool"
  urlOK :: "string \<Rightarrow> bool"
  remote :: "http_request \<Rightarrow> string + gmap"
  sent :: "http_request list"
  QueryEscape :: "string \<Rightarrow> string"
  oor :: "float64 \<Rightarrow> int"

text \<open>
  The code drops the error of \<^verbatim>\<open>http.NewRequest\<close>: for a URL that does not parse the
  request is nil, and the next statement, which sets a field of it, panics.
\<close>

definition NewRequest :: "world \<Rightarrow> http_request \<Rightarrow> http_request option" where
  "NewRequest w r = (if urlOK w (h_url r) then Some r else None)"

definition clientDo :: "world \<Rightarrow> http_request \<Rightarrow> world \<times> (string + gmap)" where
  "clientDo w r = (w\<lparr>sent := sent w @ [r]\<rparr>, remote w r)"

definition WriteFile :: "world \<Rightarrow> string \<Rightarrow> cache_file \<Rightarrow> world" where
  "WriteFile w p c = (if canWrite w p then w\<lparr>files := (files w)(p \<mapsto> c)\<rparr> else w)"

text \<open>
  Reading the cache file in \<^verbatim>\<open>generatePayload\<close>: both errors are dropped, so a
  missing, unreadable or undecodable file leaves \<^verbatim>\<open>types\<close> the nil map.
\<close>

definition readTypes :: "world \<Rightarrow> string \<Rightarrow> gmap" where
  "readTypes w p = (case files w p of Some (Schema m) \<Rightarrow> m | _ \<Rightarrow> [])"

definition cachePath :: "string \<Rightarrow> string \<Rightarrow> string \<Rightarrow> string" where
  "cachePath dir db tbl = dir @ ''/'' @ db @ ''.'' @ tbl @ ''.json''"

section \<open>The adapter\<close>

subsection \<open>\<^verbatim>\<open>generateRetval\<close>\<close>

definition generateRetval :: "gmap \<Rightarrow> failure + gval list" where
  "generateRetval res =
     (case map_of res ''exception'' of
        Some e \<Rightarrow>
          (case e of
             GMap m \<Rightarrow>
               (case lookup m ''message'' of
                  GString msg \<Rightarrow> Inl (Error (''OMNIbus: '' @ msg))
                | _ \<Rightarrow> Inl (Panic badAssert))
           | _ \<Rightarrow> Inl (Panic badAssert))
      | None \<Rightarrow>
          (case map_of res ''rowset'' of
             Some r \<Rightarrow>
               (case r of
                  GMap m \<Rightarrow>
                    (case map_of m ''rows'' of
                       None \<Rightarrow> Inr []
                     | Some rs \<Rightarrow> (case rs of GSlice xs \<Rightarrow> Inr xs | _ \<Rightarrow> Inl (Panic badAssert)))
                | _ \<Rightarrow> Inl (Panic badAssert))
           | None \<Rightarrow> Inr []))"

subsection \<open>\<^verbatim>\<open>createCacheDir\<close>\<close>

definition createCacheDir :: "OMNiInterface \<Rightarrow> world \<Rightarrow> OMNiInterface \<times> world \<times> failure option" where
  "createCacheDir omni w =
     (let omni' = (if PayloadStructCacheDir omni = []
                   then omni\<lparr>PayloadStructCacheDir := ''cache/omniinterface/payloadstructs''\<rparr>
                   else omni);
          d = PayloadStructCacheDir omni'
      in if dirStat w d = StatNotExist
         then (if canMkdir w d
               then (omni', w\<lparr>dirStat := (dirStat w)(d := StatOK)\<rparr>, None)
               else (omni', w, Some (Error ''Couldn't create payload structure cache directory'')))
         else (omni', w, None))"

subsection \<open>\<^verbatim>\<open>getPayloadStructure\<close>\<close>

text \<open>The switch on the catalog's numeric type code.\<close>

definition typeTag :: "float64 \<Rightarrow> string" where
  "typeTag dt =
     (if dt = Finite 1 then ''utc''
      else if dt = Finite 2 then ''string''
      else if dt = Finite 10 then ''string''
      else ''integer'')"

text \<open>The loop over the catalog's rows, adding one entry per column to \<^verbatim>\<open>types\<close>.\<close>

fun schemaLoop :: "gval list \<Rightarrow> gmap \<Rightarrow> failure + gmap" where
  "schemaLoop [] types = Inr types"
| "schemaLoop (v # res) types =
     (case v of
        GMap m \<Rightarrow>
          (case lookup m ''DataType'' of
             GFloat64 dt \<Rightarrow>
               (case lookup m ''ColumnName'' of
                  GString cn \<Rightarrow> schemaLoop res (AList.update cn (GString (typeTag dt)) types)
                | _ \<Rightarrow> Inl (Panic badAssert))
           | _ \<Rightarrow> Inl (Panic badAssert))
      | _ \<Rightarrow> Inl (Panic badAssert))"

definition catalogRequest :: "OMNiInterface \<Rightarrow> world \<Rightarrow> string \<Rightarrow> string \<Rightarrow> http_request" where
  "catalogRequest omni w db tbl =
     \<lparr>h_method = ''GET'',
      h_url = URL omni @ ''/catalog/columns'' @ ''?collist=ColumnName,DataType&filter=''
              @ QueryEscape w (''DatabaseName='' @ [CHR 0x27] @ db @ [CHR 0x27]
                               @ '' AND TableName='' @ [CHR 0x27] @ tbl @ [CHR 0x27]),
      h_user = User omni, h_password = Password omni, h_body = None\<rparr>"

definition getPayloadStructure ::
    "OMNiInterface \<Rightarrow> world \<Rightarrow> Request \<Rightarrow> OMNiInterface \<times> world \<times> failure option" where
  "getPayloadStructure omni w req =
     (case createCacheDir omni w of
        (omni1, w1, Some err) \<Rightarrow> (omni1, w1, Some err)
      | (omni1, w1, None) \<Rightarrow>
          (case Split (DBPath req) CHR ''/'' of
             [db, tbl] \<Rightarrow>
               (let p = cachePath (PayloadStructCacheDir omni1) db tbl in
                if files w1 p = None then
                  (case NewRequest w1 (catalogRequest omni1 w1 db tbl) of
                     None \<Rightarrow> (omni1, w1, Some (Panic nilDeref))
                   | Some r \<Rightarrow>
                       (case clientDo w1 r of
                          (w2, Inl err) \<Rightarrow> (omni1, w2, Some (Error err))
                        | (w2, Inr types) \<Rightarrow>
                            (case generateRetval types of
                               Inl f \<Rightarrow> (omni1, w2, Some f)
                             | Inr res \<Rightarrow>
                                 (case schemaLoop res types of
                                    Inl f \<Rightarrow> (omni1, w2, Some f)
                                  | Inr types' \<Rightarrow>
                                      (omni1, WriteFile w2 p (Schema types'), None)))))
                else (omni1, w1, None))
           | _ \<Rightarrow> (omni1, w1, Some (Error ''DBPath is not a path: Format db/table''))))"

subsection \<open>\<^verbatim>\<open>generatePayload\<close>\<close>

text \<open>
  One round of the loop over \<^verbatim>\<open>req.ColumnData\<close>: the membership check, the column
  descriptor and the entry of the row, for the column \<open>k\<close> with the raw value \<open>v\<close>;
  \<open>conv\<close> is the platform's out-of-range float conversion.
\<close>

definition columnStep ::
    "(float64 \<Rightarrow> int) \<Rightarrow> gmap \<Rightarrow> string \<Rightarrow> gval \<Rightarrow> failure + (gmap \<times> gval)" where
  "columnStep conv types k v =
     (if lookup types k = GNil then Inl (Error (''Column not found: '' @ k))
      else
        (let desc = [(''type'', lookup types k), (''name'', GString k)] in
         if lookup types k = GString ''integer'' \<or> lookup types k = GString ''utc'' then
           (case typeName v of
              None \<Rightarrow> Inl (Panic nilDeref)
            | Some tn \<Rightarrow>
                if tn = ''string'' then
                  (case v of
                     GString s \<Rightarrow>
                       (case Atoi s of
                          None \<Rightarrow>
                            (case lookup types k of
                               GString t \<Rightarrow>
                                 Inl (Error (''Couldn't convert column value to integer: '' @ s
                                             @ '' ('' @ t @ '')''))
                             | _ \<Rightarrow> Inl (Panic badAssert))
                        | Some num \<Rightarrow> Inr (desc, GInt num))
                   | _ \<Rightarrow> Inl (Panic badAssert))
                else if tn = ''int64'' then
                  (case v of GInt64 n \<Rightarrow> Inr (desc, GInt64 n) | _ \<Rightarrow> Inl (Panic badAssert))
                else if tn = ''float64'' then
                  (case v of
                     GFloat64 f \<Rightarrow> Inr (desc, GInt (float64ToInt conv f))
                   | _ \<Rightarrow> Inl (Panic badAssert))
                else if tn = ''int'' then Inr (desc, v)
                else Inl (Error (''Couldn't convert given parameter: '' @ k
                                 @ '' which is of type '' @ tn)))
         else Inr (desc, v)))"

text \<open>
  The loop: it stops at the first column that fails; otherwise the descriptor goes to
  the next slot of \<^verbatim>\<open>coldesc\<close> and the value into the one row.
\<close>

fun payloadLoop ::
    "(float64 \<Rightarrow> int) \<Rightarrow> gmap \<Rightarrow> gmap \<Rightarrow> gmap list \<Rightarrow> gmap \<Rightarrow> failure + rowset" where
  "payloadLoop conv types [] cds row = Inr \<lparr>coldesc = cds, rows = [row]\<rparr>"
| "payloadLoop conv types ((k, v) # cd) cds row =
     (case columnStep conv types k v of
        Inl f \<Rightarrow> Inl f
      | Inr (desc, x) \<Rightarrow> payloadLoop conv types cd (cds @ [desc]) (AList.update k x row))"

text \<open>
  \<^verbatim>\<open>generatePayload\<close> changes the request it is given; the model returns the request
  with its payload when the call returns nil. After a failure the caller drops the
  request, so the half-built payload is not kept.
\<close>

definition generatePayload ::
    "OMNiInterface \<Rightarrow> world \<Rightarrow> Request \<Rightarrow> OMNiInterface \<times> world \<times> (failure + Request)" where
  "generatePayload omni w req =
     (case getPayloadStructure omni w req of
        (omni1, w1, Some err) \<Rightarrow> (omni1, w1, Inl err)
      | (omni1, w1, None) \<Rightarrow>
          (case Split (DBPath req) CHR ''/'' of
             db # tbl # rest \<Rightarrow>
               (case payloadLoop (oor w1) (readTypes w1 (cachePath (PayloadStructCacheDir omni1) db tbl))
                       (ColumnData req) [] [] of
                  Inl f \<Rightarrow> (omni1, w1, Inl f)
                | Inr p \<Rightarrow> (omni1, w1, Inr (req\<lparr>Payload := Some p\<rparr>)))
           | _ \<Rightarrow> (omni1, w1, Inl (Panic ''index out of range''))))"

subsection \<open>\<^verbatim>\<open>sendOMNIbus\<close> and \<^verbatim>\<open>SendRequest\<close>\<close>

fun join :: "string list \<Rightarrow> string \<Rightarrow> string" where
  "join [] sep = []"
| "join [x] sep = x"
| "join (x # y # ys) sep = x @ sep @ join (y # ys) sep"

definition roundTrip :: "world \<Rightarrow> http_request \<Rightarrow> world \<times> (failure + gval list)" where
  "roundTrip w r =
     (case NewRequest w r of
        None \<Rightarrow> (w, Inl (Panic nilDeref))
      | Some r1 \<Rightarrow>
          (case clientDo w r1 of
             (w1, Inl err) \<Rightarrow> (w1, Inl (Error err))
           | (w1, Inr result) \<Rightarrow> (w1, generateRetval result)))"

definition sendOMNIbus :: "OMNiInterface \<Rightarrow> world \<Rightarrow> Request \<Rightarrow> world \<times> (failure + gval list)" where
  "sendOMNIbus omni w req =
     (if Method req = ''GET'' then
        roundTrip w
          \<lparr>h_method = ''GET'',
           h_url = URL omni @ ''/'' @ DBPath req @ ''/'' @ ''?collist='' @ join (Collist req) '',''
                   @ ''&filter='' @ QueryEscape w (Filter req),
           h_user = User omni, h_password = Password omni, h_body = None\<rparr>
      else if Method req = ''DELETE'' then
        roundTrip w
          \<lparr>h_method = ''DELETE'',
           h_url = URL omni @ ''/'' @ DBPath req @ ''/'' @ ''?filter='' @ QueryEscape w (Filter req),
           h_user = User omni, h_password = Password omni, h_body = None\<rparr>
      else if Method req = ''PATCH'' then
        roundTrip w
          \<lparr>h_method = ''PATCH'',
           h_url = URL omni @ ''/'' @ DBPath req @ ''?filter='' @ QueryEscape w (Filter req),
           h_user = User omni, h_password = Password omni, h_body = Payload req\<rparr>
      else if Method req = ''POST'' then
        roundTrip w
          \<lparr>h_method = ''POST'',
           h_url = URL omni @ ''/'' @ DBPath req,
           h_user = User omni, h_password = Password omni, h_body = Payload req\<rparr>
      else (w, Inr []))"

definition SendRequest ::
    "OMNiInterface \<Rightarrow> world \<Rightarrow> Request \<Rightarrow> OMNiInterface \<times> world \<times> (failure + gval list)" where
  "SendRequest omni w req =
     (if Method req = ''POST'' \<or> Method req = ''PATCH'' then
        (case generatePayload omni w req of
           (omni1, w1, Inl err) \<Rightarrow> (omni1, w1, Inl err)
         | (omni1, w1, Inr req1) \<Rightarrow> (case sendOMNIbus omni1 w1 req1 of (w2, r) \<Rightarrow> (omni1, w2, r)))
      else (case sendOMNIbus omni w req of (w1, r) \<Rightarrow> (omni, w1, r)))"

section \<open>Example inputs\<close>

text \<open>
  A configuration, the schema of \<^verbatim>\<open>alerts.status\<close> as the cache file holds it, the
  catalog's reply for that table, and worlds around them: one whose cache directory
  exists, with the given files, and one in which every directory is reported as not
  existing and none can be made. On the example platform an out-of-range float conversion gives the least
  \<^verbatim>\<open>int\<close>.
\<close>

definition exampleOmni :: OMNiInterface where
  "exampleOmni =
     \<lparr>URL = ''http://omnibus:8080/objectserver/restapi'', User = ''root'',
      Password = ''secret'', Timeout = Finite 10, PayloadStructCacheDir = ''cache''\<rparr>"

definition alertsSchema :: gmap where
  "alertsSchema =
     [(''Severity'', GString ''integer''), (''Summary'', GString ''string''),
      (''LastOccurrence'', GString ''utc'')]"

definition catalogReply :: gmap where
  "catalogReply =
     [(''rowset'', GMap [(''rows'', GSlice
        [GMap [(''ColumnName'', GString ''Severity''), (''DataType'', GFloat64 (Finite 0))],
         GMap [(''ColumnName'', GString ''Summary''), (''DataType'', GFloat64 (Finite 2))]])])]"

definition exampleWorld :: "(string \<rightharpoonup> cache_file) \<Rightarrow> world" where
  "exampleWorld fs =
     \<lparr>dirStat = (\<lambda>d. if d = ''cache'' then StatOK else StatNotExist),
      canMkdir = (\<lambda>d. True), files = fs, canWrite = (\<lambda>p. True),
      urlOK = (\<lambda>u. True), remote = (\<lambda>r. Inr catalogReply), sent = [], QueryEscape = (\<lambda>s. s),
      oor = (\<lambda>f. minInt)\<rparr>"

definition readOnlyWorld :: world where
  "readOnlyWorld =
     \<lparr>dirStat = (\<lambda>d. StatNotExist), canMkdir = (\<lambda>d. False), files = Map.empty, canWrite = (\<lambda>p. False),
      urlOK = (\<lambda>u. True), remote = (\<lambda>r. Inr catalogReply), sent = [], QueryEscape = (\<lambda>s. s),
      oor = (\<lambda>f. minInt)\<rparr>"

definition writeRequest :: "string \<Rightarrow> gmap \<Rightarrow> Request" where
  "writeRequest path cd =
     \<lparr>Method = ''POST'', DBPath = path, Filter = [], ColumnData = cd, Collist = [],
      Payload = None\<rparr>"

section \<open>Properties of the library models\<close>

text \<open>\<^verbatim>\<open>strings.Split\<close> gives one segment more than the string has separators.\<close>

lemma Split_nonempty: "Split s sep \<noteq> []"
  by (induction s) (auto split: list.splits)

lemma length_Split: "length (Split s sep) = Suc (count_list s sep)"
  by (induction s) (auto split: list.splits simp: Split_nonempty)

text \<open>\<^verbatim>\<open>strconv.Atoi\<close> reads back the decimal notation of every \<^verbatim>\<open>int\<close>.\<close>

lemma digit_char_of: "d < 10 \<Longrightarrow> digit (char_of (48 + d)) = Some d"
  by (simp add: digit_def Let_def)

lemma digits_append:
  "digits acc (xs @ ys) = (case digits acc xs of None \<Rightarrow> None | Some a \<Rightarrow> digits a ys)"
  by (induction xs arbitrary: acc) (auto split: option.splits)

lemma digits_natStr: "digits 0 (natStr n) = Some n"
proof (induction n rule: natStr.induct)
  case (1 n)
  show ?case
  proof (cases "n < 10")
    case True
    then show ?thesis by (subst natStr.simps) (simp add: digit_char_of)
  next
    case False
    with 1 have "digits 0 (natStr (n div 10)) = Some (n div 10)" by simp
    with False show ?thesis
      by (subst natStr.simps) (simp add: digits_append digit_char_of)
  qed
qed

lemma natStr_first: "\<exists>c cs. natStr n = c # cs \<and> digit c \<noteq> None"
proof (induction n rule: natStr.induct)
  case (1 n)
  show ?case
  proof (cases "n < 10")
    case True
    then show ?thesis by (subst natStr.simps) (simp add: digit_char_of)
  next
    case False
    with 1 obtain c cs where "natStr (n div 10) = c # cs" "digit c \<noteq> None" by auto
    with False show ?thesis by (subst natStr.simps) simp
  qed
qed

lemma digit_sign: "digit CHR ''-'' = None" "digit CHR ''+'' = None"
  by (simp_all add: digit_def)

lemma Atoi_Itoa:
  assumes "minInt \<le> i" and "i \<le> maxInt"
  shows "Atoi (Itoa i) = Some i"
proof (cases "i < 0")
  case True
  obtain c cs where "natStr (nat (- i)) = c # cs" using natStr_first by blast
  with True assms digits_natStr [of "nat (- i)"] show ?thesis
    by (simp add: Atoi_def Itoa_def)
next
  case False
  obtain c cs where cs: "natStr (nat i) = c # cs" "digit c \<noteq> None" using natStr_first by blast
  then have "c \<noteq> CHR ''-''" "c \<noteq> CHR ''+''" using digit_sign by auto
  with False assms cs digits_natStr [of "nat i"] show ?thesis
    by (simp add: Atoi_def Itoa_def)
qed

section \<open>Maps and the two loops\<close>

lemma lookup_update: "lookup (AList.update k v m) k' = (if k' = k then v else lookup m k')"
  by (simp add: lookup_def update_conv')

lemma columnStep_absent:
  "lookup types k = GNil \<Longrightarrow> columnStep conv types k v = Inl (Error (''Column not found: '' @ k))"
  by (simp add: columnStep_def)

lemma columnStep_Inr_present:
  "columnStep conv types k v = Inr dx \<Longrightarrow> lookup types k \<noteq> GNil"
  by (auto simp: columnStep_def split: if_splits)

lemma columnStep_Inr_desc:
  "columnStep conv types k v = Inr (d, x) \<Longrightarrow> d = [(''type'', lookup types k), (''name'', GString k)]"
  by (auto simp: columnStep_def Let_def split: if_splits option.splits gval.splits)

lemma columnStep_passthrough:
  "lookup types k \<noteq> GNil \<Longrightarrow> lookup types k \<noteq> GString ''integer'' \<Longrightarrow>
   lookup types k \<noteq> GString ''utc'' \<Longrightarrow>
   columnStep conv types k v = Inr ([(''type'', lookup types k), (''name'', GString k)], v)"
  by (simp add: columnStep_def)

lemma columnStep_nil:
  "lookup types k = GString ''integer'' \<or> lookup types k = GString ''utc'' \<Longrightarrow>
   columnStep conv types k GNil = Inl (Panic nilDeref)"
  by (auto simp: columnStep_def)

lemma payloadLoop_append:
  "payloadLoop conv types (pre @ post) cds row =
     (case payloadLoop conv types pre cds row of
        Inl f \<Rightarrow> Inl f
      | Inr p \<Rightarrow> payloadLoop conv types post (coldesc p) (hd (rows p)))"
  by (induction conv types pre cds row rule: payloadLoop.induct)
     (auto split: sum.splits)

lemma payloadLoop_rows:
  "payloadLoop conv types cd cds row = Inr p \<Longrightarrow> \<exists>r. rows p = [r]"
  by (induction conv types cd cds row rule: payloadLoop.induct)
     (auto split: sum.splits)

lemma payloadLoop_present:
  "payloadLoop conv types cd cds row = Inr p \<Longrightarrow> k \<in> fst ` set cd \<Longrightarrow> lookup types k \<noteq> GNil"
proof (induction conv types cd cds row rule: payloadLoop.induct)
  case (1 conv types cds row)
  then show ?case by simp
next
  case (2 conv types k' v cd cds row)
  from "2.prems" obtain d x where step: "columnStep conv types k' v = Inr (d, x)"
    and rest: "payloadLoop conv types cd (cds @ [d]) (AList.update k' x row) = Inr p"
    by (auto split: sum.splits)
  show ?case
  proof (cases "k = k'")
    case True
    with step show ?thesis by (auto dest: columnStep_Inr_present)
  next
    case False
    with "2.prems" have "k \<in> fst ` set cd" by auto
    from "2.IH" [OF step refl rest this] show ?thesis .
  qed
qed

lemma payloadLoop_coldesc:
  "payloadLoop conv types cd cds row = Inr p \<Longrightarrow>
   coldesc p = cds @ map (\<lambda>(k, v). [(''type'', lookup types k), (''name'', GString k)]) cd"
proof (induction conv types cd cds row rule: payloadLoop.induct)
  case (1 conv types cds row)
  then show ?case by auto
next
  case (2 conv types k v cd cds row)
  from "2.prems" obtain d x where step: "columnStep conv types k v = Inr (d, x)"
    and rest: "payloadLoop conv types cd (cds @ [d]) (AList.update k x row) = Inr p"
    by (auto split: sum.splits)
  from "2.IH" [OF step refl rest] columnStep_Inr_desc [OF step] show ?case by simp
qed

lemma payloadLoop_keys:
  "payloadLoop conv types cd cds row = Inr p \<Longrightarrow> distinct (map fst cd) \<Longrightarrow>
   fst ` set row \<inter> fst ` set cd = {} \<Longrightarrow>
   map fst (hd (rows p)) = map fst row @ map fst cd"
proof (induction conv types cd cds row rule: payloadLoop.induct)
  case (1 conv types cds row)
  then show ?case by auto
next
  case (2 conv types k v cd cds row)
  from "2.prems" obtain d x where step: "columnStep conv types k v = Inr (d, x)"
    and rest: "payloadLoop conv types cd (cds @ [d]) (AList.update k x row) = Inr p"
    by (auto split: sum.splits)
  from "2.prems" have k: "k \<notin> fst ` set row" and d: "distinct (map fst cd)"
    and kcd: "k \<notin> fst ` set cd" and disj: "fst ` set row \<inter> fst ` set cd = {}"
    by auto
  have "fst ` set (AList.update k x row) \<inter> fst ` set cd = {}"
    using kcd disj by (auto simp: dom_update)
  from "2.IH" [OF step refl rest d this] k show ?case
    by (simp add: update_keys)
qed

lemma payloadLoop_keep:
  "payloadLoop conv types cd cds row = Inr p \<Longrightarrow> k \<notin> fst ` set cd \<Longrightarrow>
   map_of (hd (rows p)) k = map_of row k"
proof (induction conv types cd cds row rule: payloadLoop.induct)
  case (1 conv types cds row)
  then show ?case by auto
next
  case (2 conv types k' v cd cds row)
  from "2.prems" obtain d x where step: "columnStep conv types k' v = Inr (d, x)"
    and rest: "payloadLoop conv types cd (cds @ [d]) (AList.update k' x row) = Inr p"
    by (auto split: sum.splits)
  from "2.prems" have "k \<notin> fst ` set cd" "k \<noteq> k'" by auto
  from "2.IH" [OF step refl rest this(1)] this(2) show ?case
    by (simp add: update_conv')
qed

lemma payloadLoop_value:
  "payloadLoop conv types cd cds row = Inr p \<Longrightarrow> distinct (map fst cd) \<Longrightarrow>
   (k, v) \<in> set cd \<Longrightarrow>
   \<exists>d x. columnStep conv types k v = Inr (d, x) \<and> map_of (hd (rows p)) k = Some x"
proof (induction conv types cd cds row rule: payloadLoop.induct)
  case (1 conv types cds row)
  then show ?case by simp
next
  case (2 conv types k' v' cd cds row)
  from "2.prems" obtain d x where step: "columnStep conv types k' v' = Inr (d, x)"
    and rest: "payloadLoop conv types cd (cds @ [d]) (AList.update k' x row) = Inr p"
    by (auto split: sum.splits)
  show ?case
  proof (cases "(k, v) = (k', v')")
    case True
    with "2.prems"(2) have "k \<notin> fst ` set cd" by auto
    from payloadLoop_keep [OF rest this] True step show ?thesis
      by (auto simp: update_conv')
  next
    case False
    with "2.prems" have "(k, v) \<in> set cd" "distinct (map fst cd)" by auto
    from "2.IH" [OF step refl rest this(2) this(1)] show ?thesis .
  qed
qed

section \<open>The calls and the world\<close>

lemma createCacheDir_frame:
  "createCacheDir omni w = (omni1, w1, r) \<Longrightarrow>
   files w1 = files w \<and> sent w1 = sent w \<and> remote w1 = remote w \<and> oor w1 = oor w
   \<and> canWrite w1 = canWrite w \<and> QueryEscape w1 = QueryEscape w"
  by (auto simp: createCacheDir_def Let_def split: if_splits)

lemma generatePayload_cached:
  assumes "createCacheDir omni w = (omni1, w1, None)"
    and "Split (DBPath req) CHR ''/'' = [db, tbl]"
    and "files w (cachePath (PayloadStructCacheDir omni1) db tbl) = Some c"
  shows "generatePayload omni w req =
           (omni1, w1,
            case payloadLoop (oor w) (readTypes w (cachePath (PayloadStructCacheDir omni1) db tbl))
                   (ColumnData req) [] [] of
              Inl f \<Rightarrow> Inl f
            | Inr p \<Rightarrow> Inr (req\<lparr>Payload := Some p\<rparr>))"
proof -
  from createCacheDir_frame [OF assms(1)]
  have fr: "files w1 = files w" "oor w1 = oor w" by simp_all
  have "getPayloadStructure omni w req = (omni1, w1, None)"
    using assms fr by (simp add: getPayloadStructure_def)
  then show ?thesis
    using assms(2) fr by (simp add: generatePayload_def readTypes_def split: sum.splits)
qed

lemma generatePayload_bad_path:
  "length (Split (DBPath req) CHR ''/'') \<noteq> 2 \<Longrightarrow>
   generatePayload omni w req =
     (case createCacheDir omni w of
        (omni1, w1, Some err) \<Rightarrow> (omni1, w1, Inl err)
      | (omni1, w1, None) \<Rightarrow> (omni1, w1, Inl (Error ''DBPath is not a path: Format db/table'')))"
  by (auto simp: generatePayload_def getPayloadStructure_def split: prod.splits option.splits list.splits)

lemma clientDo_frame:
  "clientDo w r = (w1, x) \<Longrightarrow> files w1 = files w \<and> sent w1 = sent w @ [r] \<and> canWrite w1 = canWrite w"
  by (auto simp: clientDo_def)

lemma roundTrip_files: "roundTrip w r = (w1, x) \<Longrightarrow> files w1 = files w"
  by (auto simp: roundTrip_def clientDo_def NewRequest_def split: sum.splits if_splits)

lemma sendOMNIbus_files: "sendOMNIbus omni w req = (w1, x) \<Longrightarrow> files w1 = files w"
  by (auto simp: sendOMNIbus_def split: if_splits dest: roundTrip_files)

lemma WriteFile_keeps: "files w p = None \<Longrightarrow> files w q = Some c \<Longrightarrow> files (WriteFile w p c') q = Some c"
  by (auto simp: WriteFile_def)

lemma getPayloadStructure_keeps:
  assumes "getPayloadStructure omni w req = (omni1, w1, e)" and "files w q = Some c"
  shows "files w1 q = Some c"
proof -
  obtain o0 w0 e0 where ccd: "createCacheDir omni w = (o0, w0, e0)"
    by (cases "createCacheDir omni w") auto
  from createCacheDir_frame [OF ccd] have f0: "files w0 = files w" by simp
  show ?thesis
  proof (cases e0)
    case (Some err)
    with assms ccd f0 show ?thesis by (simp add: getPayloadStructure_def Let_def)
  next
    case None
    show ?thesis
    proof (cases "\<exists>db tbl. Split (DBPath req) CHR ''/'' = [db, tbl]")
      case False
      then have "getPayloadStructure omni w req =
                   (o0, w0, Some (Error ''DBPath is not a path: Format db/table''))"
        using ccd None by (auto simp: getPayloadStructure_def split: list.splits)
      with assms f0 show ?thesis by simp
    next
      case True
      then obtain db tbl where sp: "Split (DBPath req) CHR ''/'' = [db, tbl]" by blast
      let ?p = "cachePath (PayloadStructCacheDir o0) db tbl"
      show ?thesis
      proof (cases "files w0 ?p = None")
        case False
        then have "getPayloadStructure omni w req = (o0, w0, None)"
          using ccd None sp by (auto simp: getPayloadStructure_def Let_def)
        with assms f0 show ?thesis by simp
      next
        case miss: True
        obtain w2 x where cd: "clientDo w0 (catalogRequest o0 w0 db tbl) = (w2, x)"
          by (cases "clientDo w0 (catalogRequest o0 w0 db tbl)") auto
        from clientDo_frame [OF cd] have f2: "files w2 = files w0" by simp
        have "files w1 = files w0 \<or> files w1 = files w2
                \<or> (\<exists>t. w1 = WriteFile w2 ?p (Schema t))"
          using assms(1) ccd None sp miss cd
          by (auto simp: getPayloadStructure_def Let_def NewRequest_def
                   split: sum.splits if_splits)
        then show ?thesis
          using f2 f0 miss assms(2) by (auto intro: WriteFile_keeps)
      qed
    qed
  qed
qed

lemma generatePayload_world:
  "generatePayload omni w req = (omni1, w1, x) \<Longrightarrow>
   \<exists>e. getPayloadStructure omni w req = (omni1, w1, e)"
  by (auto simp: generatePayload_def split: prod.splits option.splits list.splits sum.splits)

lemma SendRequest_keeps:
  assumes "SendRequest omni w req = (omni', w', r)" and "files w q = Some c"
  shows "files w' q = Some c"
proof (cases "Method req = ''POST'' \<or> Method req = ''PATCH''")
  case False
  with assms(1) obtain w1 where "sendOMNIbus omni w req = (w1, r)" "w' = w1"
    by (auto simp: SendRequest_def split: prod.splits)
  with sendOMNIbus_files assms(2) show ?thesis by metis
next
  case True
  obtain o1 w1 x where gp: "generatePayload omni w req = (o1, w1, x)"
    by (cases "generatePayload omni w req") auto
  from generatePayload_world [OF gp] getPayloadStructure_keeps assms(2)
  have k1: "files w1 q = Some c" by blast
  show ?thesis
  proof (cases x)
    case (Inl f)
    with assms(1) True gp k1 show ?thesis by (auto simp: SendRequest_def)
  next
    case (Inr req1)
    with assms(1) True gp obtain w2 where "sendOMNIbus o1 w1 req1 = (w2, r)" "w' = w2"
      by (auto simp: SendRequest_def split: prod.splits)
    with sendOMNIbus_files k1 show ?thesis by metis
  qed
qed

lemma getPayloadStructure_fetch:
  assumes "getPayloadStructure omni w req = (omni1, w1, e)" and "sent w1 \<noteq> sent w"
  shows "\<exists>db tbl. Split (DBPath req) CHR ''/'' = [db, tbl]
           \<and> files w (cachePath (PayloadStructCacheDir omni1) db tbl) = None
           \<and> sent w1 = sent w @ [catalogRequest omni1 w db tbl]"
proof -
  obtain o0 w0 e0 where ccd: "createCacheDir omni w = (o0, w0, e0)"
    by (cases "createCacheDir omni w") auto
  from createCacheDir_frame [OF ccd]
  have f0: "files w0 = files w" "sent w0 = sent w" "QueryEscape w0 = QueryEscape w" by simp_all
  have cr: "catalogRequest o0 w0 db tbl = catalogRequest o0 w db tbl" for db tbl
    using f0 by (simp add: catalogRequest_def)
  show ?thesis
    using assms ccd f0 cr
    by (auto simp: getPayloadStructure_def clientDo_def WriteFile_def Let_def NewRequest_def
             split: option.splits list.splits if_splits sum.splits)
qed

lemma generatePayload_Inr:
  "generatePayload omni w req = (omni1, w1, Inr req') \<Longrightarrow>
   getPayloadStructure omni w req = (omni1, w1, None)"
  by (auto simp: generatePayload_def split: prod.splits option.splits list.splits sum.splits)

lemma generatePayload_loop:
  assumes "getPayloadStructure omni w req = (omni1, w1, None)"
    and "Split (DBPath req) CHR ''/'' = [db, tbl]"
  shows "generatePayload omni w req =
           (omni1, w1,
            case payloadLoop (oor w1) (readTypes w1 (cachePath (PayloadStructCacheDir omni1) db tbl))
                   (ColumnData req) [] [] of
              Inl f \<Rightarrow> Inl f
            | Inr p \<Rightarrow> Inr (req\<lparr>Payload := Some p\<rparr>))"
  using assms by (simp add: generatePayload_def split: sum.splits)

lemma createCacheDir_result:
  "snd (snd (createCacheDir omni w)) =
     (let d = (if PayloadStructCacheDir omni = [] then ''cache/omniinterface/payloadstructs''
               else PayloadStructCacheDir omni)
      in if dirStat w d = StatNotExist \<and> \<not> canMkdir w d
         then Some (Error ''Couldn't create payload structure cache directory'')
         else None)"
  by (simp add: createCacheDir_def Let_def)

text \<open>The loop over the catalog's rows: a prefix first, then the rest.\<close>

lemma schemaLoop_append:
  "schemaLoop (pre @ post) types =
     (case schemaLoop pre types of Inl f \<Rightarrow> Inl f | Inr t \<Rightarrow> schemaLoop post t)"
  by (induction pre types rule: schemaLoop.induct)
     (auto split: gval.splits sum.splits)

lemma schemaLoop_other:
  "schemaLoop post types = Inr types' \<Longrightarrow>
   \<forall>m. GMap m \<in> set post \<longrightarrow> lookup m ''ColumnName'' \<noteq> GString cn \<Longrightarrow>
   lookup types' cn = lookup types cn"
proof (induction post types rule: schemaLoop.induct)
  case (1 types)
  then show ?case by simp
next
  case (2 v res types)
  then show ?case
    by (auto split: gval.splits simp: lookup_update)
qed

text \<open>
  The conversion of a float discards the fraction: the result is no further from zero
  than the float, and less than one away from it.
\<close>

lemma truncRat_toward_zero:
  "\<bar>of_int (truncRat q)\<bar> \<le> \<bar>q\<bar> \<and> \<bar>q - of_int (truncRat q)\<bar> < 1"
proof (cases "0 \<le> q")
  case True
  have "of_int \<lfloor>q\<rfloor> \<le> q" "q < of_int \<lfloor>q\<rfloor> + 1" "(0::rat) \<le> of_int \<lfloor>q\<rfloor>"
    using True by simp_all linarith
  with True show ?thesis
    unfolding truncRat_def by simp
next
  case False
  have "q \<le> of_int \<lceil>q\<rceil>" "of_int \<lceil>q\<rceil> < q + 1" "of_int \<lceil>q\<rceil> \<le> (0::rat)"
    using False by (simp_all add: ceiling_le_iff) linarith
  with False show ?thesis
    unfolding truncRat_def by simp
qed

text \<open>
  A payload that is returned has one descriptor per column and one row, and the row
  holds the raw value of every \<^verbatim>\<open>"string"\<close> column.
\<close>

lemma payload_of_success:
  assumes "generatePayload omni w req = (omni1, w1, Inr req')"
    and "Split (DBPath req) CHR ''/'' = [db, tbl]"
    and "types = readTypes w1 (cachePath (PayloadStructCacheDir omni1) db tbl)"
    and "distinct (map fst (ColumnData req))"
  shows "\<exists>p r. Payload req' = Some p
           \<and> coldesc p = map (\<lambda>(k, v). [(''type'', lookup types k), (''name'', GString k)]) (ColumnData req)
           \<and> rows p = [r] \<and> map fst r = map fst (ColumnData req)
           \<and> (\<forall>(k, v) \<in> set (ColumnData req).
                 \<exists>d x. columnStep (oor w1) types k v = Inr (d, x) \<and> map_of r k = Some x)
           \<and> (\<forall>(k, v) \<in> set (ColumnData req). lookup types k = GString ''string'' \<longrightarrow> map_of r k = Some v)"
proof -
  from generatePayload_Inr [OF assms(1)]
  have gps: "getPayloadStructure omni w req = (omni1, w1, None)" .
  from assms(1) generatePayload_loop [OF gps assms(2)] assms(3)
  obtain p where loop: "payloadLoop (oor w1) types (ColumnData req) [] [] = Inr p"
    and req': "req' = req\<lparr>Payload := Some p\<rparr>"
    by (auto split: sum.splits)
  from payloadLoop_rows [OF loop] obtain r where r: "rows p = [r]" by blast
  have cds: "coldesc p = map (\<lambda>(k, v). [(''type'', lookup types k), (''name'', GString k)]) (ColumnData req)"
    using payloadLoop_coldesc [OF loop] by simp
  have keys: "map fst r = map fst (ColumnData req)"
    using payloadLoop_keys [OF loop assms(4)] r by simp
  have all: "\<exists>d x. columnStep (oor w1) types k v = Inr (d, x) \<and> map_of r k = Some x"
    if "(k, v) \<in> set (ColumnData req)" for k v
    using payloadLoop_value [OF loop assms(4) that] r by simp
  have vals: "map_of r k = Some v"
    if "(k, v) \<in> set (ColumnData req)" and "lookup types k = GString ''string''" for k v
  proof -
    from all [OF that(1)]
    obtain d x where "columnStep (oor w1) types k v = Inr (d, x)" "map_of r k = Some x"
      by auto
    moreover have "columnStep (oor w1) types k v
                     = Inr ([(''type'', lookup types k), (''name'', GString k)], v)"
      using that(2) by (simp add: columnStep_passthrough)
    ultimately show ?thesis by simp
  qed
  from req' r cds keys all vals show ?thesis by auto
qed

text \<open>When every column is acceptable, the loop returns the payload, and which one.\<close>

lemma update_fresh: "k \<notin> fst ` set row \<Longrightarrow> AList.update k x row = row @ [(k, x)]"
  by (induction row) auto

lemma columnStep_value:
  assumes "lookup types k \<noteq> GNil"
    and "lookup types k = GString ''integer'' \<or> lookup types k = GString ''utc'' \<longrightarrow>
           (\<exists>n. v = GInt n) \<or> (\<exists>n. v = GInt64 n) \<or> (\<exists>f. v = GFloat64 f)
           \<or> (\<exists>s n. v = GString s \<and> Atoi s = Some n)"
  shows "columnStep conv types k v =
           Inr ([(''type'', lookup types k), (''name'', GString k)],
                if lookup types k = GString ''integer'' \<or> lookup types k = GString ''utc''
                then (case v of
                        GString s \<Rightarrow> (case Atoi s of Some n \<Rightarrow> GInt n | None \<Rightarrow> v)
                      | GFloat64 f \<Rightarrow> GInt (float64ToInt conv f)
                      | _ \<Rightarrow> v)
                else v)"
  using assms by (auto simp: columnStep_def Let_def)

lemma payloadLoop_value_all:
  assumes "distinct (map fst cd)"
    and "fst ` set row \<inter> fst ` set cd = {}"
    and "\<forall>(k, v) \<in> set cd. lookup types k \<noteq> GNil
           \<and> (lookup types k = GString ''integer'' \<or> lookup types k = GString ''utc'' \<longrightarrow>
                (\<exists>n. v = GInt n) \<or> (\<exists>n. v = GInt64 n) \<or> (\<exists>f. v = GFloat64 f)
                \<or> (\<exists>s n. v = GString s \<and> Atoi s = Some n))"
  shows "payloadLoop conv types cd cds row =
           Inr \<lparr>coldesc = cds @ map (\<lambda>(k, v). [(''type'', lookup types k), (''name'', GString k)]) cd,
                rows = [row @ map (\<lambda>(k, v). (k,
                   if lookup types k = GString ''integer'' \<or> lookup types k = GString ''utc''
                   then (case v of
                           GString s \<Rightarrow> (case Atoi s of Some n \<Rightarrow> GInt n | None \<Rightarrow> v)
                         | GFloat64 f \<Rightarrow> GInt (float64ToInt conv f)
                         | _ \<Rightarrow> v)
                   else v)) cd]\<rparr>"
  using assms
proof (induction cd arbitrary: cds row)
  case Nil
  then show ?case by simp
next
  case (Cons kv cd)
  obtain k v where kv: "kv = (k, v)" by (cases kv)
  from Cons.prems kv have fresh: "k \<notin> fst ` set row" and d: "distinct (map fst cd)"
    and kcd: "k \<notin> fst ` set cd" and disj: "fst ` set row \<inter> fst ` set cd = {}"
    by auto
  from Cons.prems(3) kv
  have step: "columnStep conv types k v =
           Inr ([(''type'', lookup types k), (''name'', GString k)],
                if lookup types k = GString ''integer'' \<or> lookup types k = GString ''utc''
                then (case v of
                        GString s \<Rightarrow> (case Atoi s of Some n \<Rightarrow> GInt n | None \<Rightarrow> v)
                      | GFloat64 f \<Rightarrow> GInt (float64ToInt conv f)
                      | _ \<Rightarrow> v)
                else v)"
    by (intro columnStep_value) auto
  have disj': "fst ` set (row @ [(k, x)]) \<inter> fst ` set cd = {}" for x
    using kcd disj by auto
  from Cons.prems(3) have rest: "\<forall>(k, v) \<in> set cd. lookup types k \<noteq> GNil
           \<and> (lookup types k = GString ''integer'' \<or> lookup types k = GString ''utc'' \<longrightarrow>
                (\<exists>n. v = GInt n) \<or> (\<exists>n. v = GInt64 n) \<or> (\<exists>f. v = GFloat64 f)
                \<or> (\<exists>s n. v = GString s \<and> Atoi s = Some n))"
    by simp
  show ?case
    unfolding kv payloadLoop.simps step
    by (simp only: sum.case prod.case update_fresh [OF fresh] Cons.IH [OF d disj' rest])
       (simp add: kv)
qed

lemma createCacheDir_ok:
  assumes "d = (if PayloadStructCacheDir omni = [] then ''cache/omniinterface/payloadstructs''
                else PayloadStructCacheDir omni)"
    and "dirStat w d \<noteq> StatNotExist \<or> canMkdir w d"
  shows "\<exists>omni1 w1. createCacheDir omni w = (omni1, w1, None) \<and> PayloadStructCacheDir omni1 = d"
  using assms by (cases "PayloadStructCacheDir omni = []") (auto simp: createCacheDir_def Let_def)

section \<open>The example inputs, evaluated\<close>

lemma example_dir:
  "createCacheDir exampleOmni (exampleWorld fs) = (exampleOmni, exampleWorld fs, None)"
  by (simp add: createCacheDir_def exampleOmni_def exampleWorld_def Let_def)

lemma example_hit:
  "getPayloadStructure exampleOmni (exampleWorld [''cache/alerts.status.json'' \<mapsto> c])
     (writeRequest ''alerts/status'' cd)
   = (exampleOmni, exampleWorld [''cache/alerts.status.json'' \<mapsto> c], None)"
  by (simp add: getPayloadStructure_def createCacheDir_def exampleOmni_def exampleWorld_def
        writeRequest_def cachePath_def Let_def)

lemma example_types:
  "readTypes (exampleWorld [''cache/alerts.status.json'' \<mapsto> Schema m])
     (cachePath (PayloadStructCacheDir exampleOmni) ''alerts'' ''status'') = m"
  by (simp add: readTypes_def exampleWorld_def exampleOmni_def cachePath_def)

lemma example_split: "Split (DBPath (writeRequest ''alerts/status'' cd)) CHR ''/'' = [''alerts'', ''status'']"
  by (simp add: writeRequest_def)

section \<open>The claims\<close>

subsection \<open>C1: coercion of a numeric column\<close>

text \<open>
  Claim C1, as the code has it. The tags that make \<^verbatim>\<open>generatePayload\<close> coerce are
  \<^verbatim>\<open>"integer"\<close> and \<^verbatim>\<open>"utc"\<close> (the tag of a timestamp column). For a column with
  one of them: a string that \<^verbatim>\<open>strconv.Atoi\<close> accepts gives that integer (the
  decimal notation of an \<^verbatim>\<open>int\<close> gives that \<^verbatim>\<open>int\<close>), any other string the
  conversion error with the value and the declared type; an \<^verbatim>\<open>int\<close> or
  \<^verbatim>\<open>int64\<close> is passed through; a finite \<^verbatim>\<open>float64\<close> whose integer part fits
  \<^verbatim>\<open>int\<close> gives that integer part; a value of any other type gives the error with the
  column and the name of the type. The nil value is not covered here (claim C10).
\<close>

theorem numeric_column_coercion:
  assumes "lookup types k = GString t" and "t = ''integer'' \<or> t = ''utc''"
  shows "(let desc = [(''type'', GString t), (''name'', GString k)] in
          (\<forall>s n. Atoi s = Some n \<longrightarrow> columnStep conv types k (GString s) = Inr (desc, GInt n))
          \<and> (\<forall>i. minInt \<le> i \<and> i \<le> maxInt \<longrightarrow>
                columnStep conv types k (GString (Itoa i)) = Inr (desc, GInt i))
          \<and> (\<forall>s. Atoi s = None \<longrightarrow>
                columnStep conv types k (GString s) =
                  Inl (Error (''Couldn't convert column value to integer: '' @ s @ '' ('' @ t @ '')'')))
          \<and> (\<forall>n. columnStep conv types k (GInt n) = Inr (desc, GInt n))
          \<and> (\<forall>n. columnStep conv types k (GInt64 n) = Inr (desc, GInt64 n))
          \<and> (\<forall>q. minInt \<le> truncRat q \<and> truncRat q \<le> maxInt \<longrightarrow>
                columnStep conv types k (GFloat64 (Finite q)) = Inr (desc, GInt (truncRat q)))
          \<and> (\<forall>v tn. typeName v = Some tn \<and> tn \<noteq> ''string'' \<and> tn \<noteq> ''int64'' \<and> tn \<noteq> ''float64''
                     \<and> tn \<noteq> ''int'' \<longrightarrow>
                columnStep conv types k v =
                  Inl (Error (''Couldn't convert given parameter: '' @ k @ '' which is of type '' @ tn))))"
  using assms by (auto simp: columnStep_def Let_def float64ToInt_def Atoi_Itoa)

theorem numeric_column_coercion_witness:
  "columnStep (\<lambda>f. minInt) alertsSchema ''Severity'' (GString ''-42'')
     = Inr ([(''type'', GString ''integer''), (''name'', GString ''Severity'')], GInt (- 42))
   \<and> columnStep (\<lambda>f. minInt) alertsSchema ''Severity'' (GString ''4x'')
     = Inl (Error ''Couldn't convert column value to integer: 4x (integer)'')
   \<and> columnStep (\<lambda>f. minInt) alertsSchema ''Severity'' (GInt 4)
     = Inr ([(''type'', GString ''integer''), (''name'', GString ''Severity'')], GInt 4)
   \<and> columnStep (\<lambda>f. minInt) alertsSchema ''Severity''
        (GFloat64 (Finite (8782019273372467 / 2251799813685248)))
     = Inr ([(''type'', GString ''integer''), (''name'', GString ''Severity'')], GInt 3)
   \<and> columnStep (\<lambda>f. minInt) alertsSchema ''Severity'' (GBool True)
     = Inl (Error ''Couldn't convert given parameter: Severity which is of type bool'')"
proof -
  have ty: "lookup alertsSchema ''Severity'' = GString ''integer''"
    by (simp add: alertsSchema_def lookup_def)
  note c = numeric_column_coercion [OF ty, of "\<lambda>f. minInt", unfolded Let_def, simplified]
  have a1: "Atoi ''-42'' = Some (- 42)"
    by (simp add: Atoi_def digit_def minInt_def maxInt_def)
  have a2: "Atoi ''4x'' = None"
    by (simp add: Atoi_def digit_def)
  have t: "truncRat (8782019273372467 / 2251799813685248) = 3"
    by (simp add: truncRat_def floor_unique)
  have r: "minInt \<le> 3 \<and> 3 \<le> maxInt" by (simp add: minInt_def maxInt_def)
  from c have "columnStep (\<lambda>f. minInt) alertsSchema ''Severity'' (GString ''-42'')
     = Inr ([(''type'', GString ''integer''), (''name'', GString ''Severity'')], GInt (- 42))"
    using a1 by blast
  moreover from c have "columnStep (\<lambda>f. minInt) alertsSchema ''Severity'' (GString ''4x'')
     = Inl (Error ''Couldn't convert column value to integer: 4x (integer)'')"
    using a2 by force
  moreover from c have "columnStep (\<lambda>f. minInt) alertsSchema ''Severity'' (GInt 4)
     = Inr ([(''type'', GString ''integer''), (''name'', GString ''Severity'')], GInt 4)"
    by blast
  moreover from c have "columnStep (\<lambda>f. minInt) alertsSchema ''Severity''
        (GFloat64 (Finite (8782019273372467 / 2251799813685248)))
     = Inr ([(''type'', GString ''integer''), (''name'', GString ''Severity'')], GInt 3)"
    using t r by metis
  moreover from c have "columnStep (\<lambda>f. minInt) alertsSchema ''Severity'' (GBool True)
     = Inl (Error ''Couldn't convert given parameter: Severity which is of type bool'')"
    by force
  ultimately show ?thesis by blast
qed

text \<open>
  The claim as written fails: an \<^verbatim>\<open>int32\<close> is integral and is refused, the nil value
  panics, and a float beyond the range of \<^verbatim>\<open>int\<close> is not truncated (the example
  platform gives the least \<^verbatim>\<open>int\<close>).
\<close>

theorem numeric_column_coercion_counterexample:
  "columnStep (\<lambda>f. minInt) alertsSchema ''Severity'' (GInt32 5)
     = Inl (Error ''Couldn't convert given parameter: Severity which is of type int32'')
   \<and> columnStep (\<lambda>f. minInt) alertsSchema ''Severity'' GNil = Inl (Panic nilDeref)
   \<and> columnStep (\<lambda>f. minInt) alertsSchema ''Severity'' (GFloat64 (Finite (2 ^ 70)))
     = Inr ([(''type'', GString ''integer''), (''name'', GString ''Severity'')], GInt (- (2 ^ 63)))"
  by (simp add: columnStep_def alertsSchema_def lookup_def float64ToInt_def truncRat_def
        minInt_def maxInt_def)

subsection \<open>C2: a cache file that cannot be read\<close>

text \<open>
  Claim C2, as the code has it. When the cache file of the table exists but cannot be
  read or decoded, \<^verbatim>\<open>generatePayload\<close> sends no request and changes no file: it goes
  on with the empty schema, so the first column of the request is reported as not found
  (and a request with no column gets the empty payload).
\<close>

theorem corrupt_cache_not_refetched:
  assumes "createCacheDir omni w = (omni1, w1, None)"
    and "Split (DBPath req) CHR ''/'' = [db, tbl]"
    and "files w (cachePath (PayloadStructCacheDir omni1) db tbl) = Some Corrupt"
  shows "generatePayload omni w req =
           (omni1, w1,
            case ColumnData req of
              [] \<Rightarrow> Inr (req\<lparr>Payload := Some \<lparr>coldesc = [], rows = [[]]\<rparr>\<rparr>)
            | (k, v) # cd \<Rightarrow> Inl (Error (''Column not found: '' @ k)))
         \<and> sent w1 = sent w \<and> files w1 = files w"
proof -
  have "readTypes w (cachePath (PayloadStructCacheDir omni1) db tbl) = []"
    using assms(3) by (simp add: readTypes_def)
  then have "generatePayload omni w req =
           (omni1, w1,
            case payloadLoop (oor w) [] (ColumnData req) [] [] of
              Inl f \<Rightarrow> Inl f
            | Inr p \<Rightarrow> Inr (req\<lparr>Payload := Some p\<rparr>))"
    using generatePayload_cached [OF assms] by simp
  moreover have "payloadLoop (oor w) [] (ColumnData req) [] [] =
                   (case ColumnData req of
                      [] \<Rightarrow> Inr \<lparr>coldesc = [], rows = [[]]\<rparr>
                    | (k, v) # cd \<Rightarrow> Inl (Error (''Column not found: '' @ k)))"
    by (cases "ColumnData req") (auto simp: columnStep_def lookup_def)
  ultimately show ?thesis
    using createCacheDir_frame [OF assms(1)] by (auto split: list.splits)
qed

theorem corrupt_cache_not_refetched_witness:
  "generatePayload exampleOmni (exampleWorld [''cache/alerts.status.json'' \<mapsto> Corrupt])
     (writeRequest ''alerts/status'' [(''Severity'', GInt 4)])
   = (exampleOmni, exampleWorld [''cache/alerts.status.json'' \<mapsto> Corrupt],
      Inl (Error ''Column not found: Severity''))"
proof -
  let ?w = "exampleWorld [''cache/alerts.status.json'' \<mapsto> Corrupt]"
  have c: "files ?w (cachePath (PayloadStructCacheDir exampleOmni) ''alerts'' ''status'') = Some Corrupt"
    by (simp add: exampleWorld_def exampleOmni_def cachePath_def)
  from corrupt_cache_not_refetched [OF example_dir example_split c, of "[(''Severity'', GInt 4)]"]
  show ?thesis by (simp add: writeRequest_def)
qed

text \<open>
  The claim as written fails: with a corrupt file no catalog request is sent and the
  call fails, where with no file the catalog request is sent and the call succeeds.
\<close>

theorem corrupt_cache_not_refetched_counterexample:
  "sent (fst (snd (generatePayload exampleOmni
           (exampleWorld [''cache/alerts.status.json'' \<mapsto> Corrupt])
           (writeRequest ''alerts/status'' [(''Severity'', GInt 4)])))) = []
   \<and> snd (snd (generatePayload exampleOmni
           (exampleWorld [''cache/alerts.status.json'' \<mapsto> Corrupt])
           (writeRequest ''alerts/status'' [(''Severity'', GInt 4)])))
       = Inl (Error ''Column not found: Severity'')
   \<and> sent (fst (snd (generatePayload exampleOmni (exampleWorld Map.empty)
           (writeRequest ''alerts/status'' [(''Severity'', GInt 4)]))))
       = [catalogRequest exampleOmni (exampleWorld Map.empty) ''alerts'' ''status'']
   \<and> snd (snd (generatePayload exampleOmni (exampleWorld Map.empty)
           (writeRequest ''alerts/status'' [(''Severity'', GInt 4)])))
       = Inr (writeRequest ''alerts/status'' [(''Severity'', GInt 4)]
               \<lparr>Payload := Some \<lparr>coldesc = [[(''type'', GString ''integer''), (''name'', GString ''Severity'')]],
                                 rows = [[(''Severity'', GInt 4)]]\<rparr>\<rparr>)"
proof -
  let ?req = "writeRequest ''alerts/status'' [(''Severity'', GInt 4)]"
  let ?wc = "exampleWorld [''cache/alerts.status.json'' \<mapsto> Corrupt]"
  let ?w0 = "exampleWorld Map.empty"
  let ?types = "AList.update ''Summary'' (GString ''string'')
                  (AList.update ''Severity'' (GString ''integer'') catalogReply)"
  let ?w1 = "WriteFile (?w0\<lparr>sent := [catalogRequest exampleOmni ?w0 ''alerts'' ''status'']\<rparr>)
               ''cache/alerts.status.json'' (Schema ?types)"
  have corrupt: "generatePayload exampleOmni ?wc ?req
                   = (exampleOmni, ?wc, Inl (Error ''Column not found: Severity''))"
    unfolding generatePayload_loop [OF example_hit example_split]
    by (simp add: readTypes_def exampleWorld_def exampleOmni_def cachePath_def writeRequest_def
          columnStep_def lookup_def)
  have rv: "generateRetval catalogReply =
              Inr [GMap [(''ColumnName'', GString ''Severity''), (''DataType'', GFloat64 (Finite 0))],
                   GMap [(''ColumnName'', GString ''Summary''), (''DataType'', GFloat64 (Finite 2))]]"
    by (simp add: generateRetval_def catalogReply_def)
  have sl: "schemaLoop [GMap [(''ColumnName'', GString ''Severity''), (''DataType'', GFloat64 (Finite 0))],
                   GMap [(''ColumnName'', GString ''Summary''), (''DataType'', GFloat64 (Finite 2))]]
              catalogReply = Inr ?types"
    by (simp add: lookup_def typeTag_def)
  have miss: "getPayloadStructure exampleOmni ?w0 ?req = (exampleOmni, ?w1, None)"
    by (simp add: getPayloadStructure_def example_dir example_split cachePath_def
          exampleOmni_def [THEN arg_cong, of PayloadStructCacheDir] Let_def clientDo_def
          NewRequest_def rv sl)
       (simp add: exampleWorld_def exampleOmni_def rv lookup_def typeTag_def)
  have types: "readTypes ?w1 (cachePath (PayloadStructCacheDir exampleOmni) ''alerts'' ''status'') = ?types"
    by (simp add: readTypes_def WriteFile_def exampleWorld_def exampleOmni_def cachePath_def)
  have oor: "oor ?w1 = (\<lambda>f. minInt)"
    by (simp add: WriteFile_def exampleWorld_def)
  have loop: "payloadLoop (\<lambda>f. minInt) ?types [(''Severity'', GInt 4)] [] []
                = Inr \<lparr>coldesc = [[(''type'', GString ''integer''), (''name'', GString ''Severity'')]],
                        rows = [[(''Severity'', GInt 4)]]\<rparr>"
    by (simp add: columnStep_def lookup_def catalogReply_def)
  have fresh: "generatePayload exampleOmni ?w0 ?req
                 = (exampleOmni, ?w1,
                    Inr (?req\<lparr>Payload := Some \<lparr>coldesc = [[(''type'', GString ''integer''), (''name'', GString ''Severity'')]],
                                 rows = [[(''Severity'', GInt 4)]]\<rparr>\<rparr>))"
    unfolding generatePayload_loop [OF miss example_split] types oor
    by (simp add: writeRequest_def columnStep_def lookup_def catalogReply_def)
  have s1: "sent ?w1 = [catalogRequest exampleOmni ?w0 ''alerts'' ''status'']"
    by (simp add: WriteFile_def)
  have s0: "sent ?wc = []" by (simp add: exampleWorld_def)
  show ?thesis unfolding corrupt fresh using s0 s1 by simp
qed

subsection \<open>C3: responses of another shape\<close>

text \<open>
  Claim C3, as the code has it. For a response with neither an \<^verbatim>\<open>exception\<close> nor a
  \<^verbatim>\<open>rowset\<close> field (the nil map of an empty or undecodable body is one),
  \<^verbatim>\<open>generateRetval\<close> returns the empty result and no error.
\<close>

theorem generateRetval_other_shape:
  "map_of res ''exception'' = None \<Longrightarrow> map_of res ''rowset'' = None \<Longrightarrow> generateRetval res = Inr []"
  by (simp add: generateRetval_def)

theorem generateRetval_other_shape_witness:
  "generateRetval [] = Inr [] \<and> generateRetval [(''status'', GString ''ok'')] = Inr []"
  using generateRetval_other_shape [of "[]"]
        generateRetval_other_shape [of "[(''status'', GString ''ok'')]"]
  by simp

text \<open>
  The claim as written fails: a \<^verbatim>\<open>rowset\<close> field that is no object is neither
  envelope, and the type assertion on it panics.
\<close>

theorem generateRetval_other_shape_counterexample:
  "generateRetval [(''rowset'', GFloat64 (Finite 5))] = Inl (Panic badAssert)"
  by (simp add: generateRetval_def)

subsection \<open>C4: the two envelopes\<close>

text \<open>
  Claim C4, as the code has it. When the \<^verbatim>\<open>exception\<close> field is present and is an
  object whose \<^verbatim>\<open>message\<close> is a string, \<^verbatim>\<open>generateRetval\<close> fails with the error
  \<^verbatim>\<open>"OMNIbus: "\<close> followed by the message, whatever else the response holds. When
  there is no \<^verbatim>\<open>exception\<close> field and the \<^verbatim>\<open>rowset\<close> field is an object without
  \<^verbatim>\<open>rows\<close>, it returns the empty result and no error. When there is no
  \<^verbatim>\<open>exception\<close> field and the \<^verbatim>\<open>rowset\<close> field is an object whose \<^verbatim>\<open>rows\<close>
  is a list, it returns that list. The two \<^verbatim>\<open>rowset\<close> cases need the
  \<^verbatim>\<open>exception\<close> field to be absent, not just malformed: the code looks at nothing
  else once the field is there.
\<close>

theorem generateRetval_envelopes:
  "(map_of res ''exception'' = Some (GMap e) \<and> lookup e ''message'' = GString msg
      \<longrightarrow> generateRetval res = Inl (Error (''OMNIbus: '' @ msg)))
   \<and> (map_of res ''exception'' = None \<and> map_of res ''rowset'' = Some (GMap r) \<and> map_of r ''rows'' = None
      \<longrightarrow> generateRetval res = Inr [])
   \<and> (map_of res ''exception'' = None \<and> map_of res ''rowset'' = Some (GMap r)
       \<and> map_of r ''rows'' = Some (GSlice xs)
      \<longrightarrow> generateRetval res = Inr xs)"
  by (simp add: generateRetval_def)

theorem generateRetval_envelopes_witness:
  "generateRetval [(''exception'', GMap [(''message'', GString ''bad filter'')])]
     = Inl (Error ''OMNIbus: bad filter'')
   \<and> generateRetval [(''rowset'', GMap [])] = Inr []
   \<and> generateRetval [(''rowset'', GMap [(''rows'', GSlice [GMap [(''Severity'', GFloat64 (Finite 4))]])])]
     = Inr [GMap [(''Severity'', GFloat64 (Finite 4))]]"
  using generateRetval_envelopes [of "[(''exception'', GMap [(''message'', GString ''bad filter'')])]"
          "[(''message'', GString ''bad filter'')]" "''bad filter''" "[]" "[]"]
        generateRetval_envelopes [of "[(''rowset'', GMap [])]" "[]" "[]" "[]" "[]"]
        generateRetval_envelopes [of "[(''rowset'', GMap [(''rows'', GSlice [GMap [(''Severity'', GFloat64 (Finite 4))]])])]"
          "[]" "[]" "[(''rows'', GSlice [GMap [(''Severity'', GFloat64 (Finite 4))]])]"
          "[GMap [(''Severity'', GFloat64 (Finite 4))]]"]
  by (simp add: lookup_def)

text \<open>
  The claim as written fails: a \<^verbatim>\<open>rowset\<close> field that is \<^verbatim>\<open>null\<close> is present and
  has no \<^verbatim>\<open>rows\<close>, an \<^verbatim>\<open>exception\<close> field that is a string is present, and both
  make the call panic; and so does an \<^verbatim>\<open>exception\<close> field that is a number, also
  beside a \<^verbatim>\<open>rowset\<close> that is an object without \<^verbatim>\<open>rows\<close>.
\<close>

theorem generateRetval_envelopes_counterexample:
  "generateRetval [(''rowset'', GNil)] = Inl (Panic badAssert)
   \<and> generateRetval [(''exception'', GString ''bad filter'')] = Inl (Panic badAssert)
   \<and> generateRetval [(''exception'', GFloat64 (Finite 5)), (''rowset'', GMap [])]
       = Inl (Panic badAssert)"
  by (simp add: generateRetval_def)

subsection \<open>C5: columns the schema does not have\<close>

text \<open>
  Claim C5, as the code has it. With the schema the call reads from the cache, the loop
  stops at the first column that fails. At a column the schema does not have, the call
  fails with \<^verbatim>\<open>"Column not found: "\<close> and the column, unless a column visited before
  it has already failed; and the call returns a payload only when the schema has every
  column of the request.
\<close>

theorem unknown_column_rejected:
  assumes "getPayloadStructure omni w req = (omni1, w1, None)"
    and "Split (DBPath req) CHR ''/'' = [db, tbl]"
    and "types = readTypes w1 (cachePath (PayloadStructCacheDir omni1) db tbl)"
  shows "(\<forall>pre k v post. ColumnData req = pre @ (k, v) # post \<and> map_of types k = None \<longrightarrow>
            snd (snd (generatePayload omni w req)) =
              (case payloadLoop (oor w1) types pre [] [] of
                 Inl f \<Rightarrow> Inl f
               | Inr p \<Rightarrow> Inl (Error (''Column not found: '' @ k))))
         \<and> (\<forall>req'. snd (snd (generatePayload omni w req)) = Inr req' \<longrightarrow>
              (\<forall>k \<in> fst ` set (ColumnData req). map_of types k \<noteq> None))"
proof -
  have gp: "snd (snd (generatePayload omni w req)) =
              (case payloadLoop (oor w1) types (ColumnData req) [] [] of
                 Inl f \<Rightarrow> Inl f
               | Inr p \<Rightarrow> Inr (req\<lparr>Payload := Some p\<rparr>))"
    unfolding generatePayload_loop [OF assms(1,2)] assms(3) by simp
  have first: "snd (snd (generatePayload omni w req)) =
              (case payloadLoop (oor w1) types pre [] [] of
                 Inl f \<Rightarrow> Inl f
               | Inr p \<Rightarrow> Inl (Error (''Column not found: '' @ k)))"
    if cd: "ColumnData req = pre @ (k, v) # post" and k: "map_of types k = None"
    for pre k v post
  proof -
    from k have "columnStep (oor w1) types k v = Inl (Error (''Column not found: '' @ k))"
      by (simp add: columnStep_absent lookup_def)
    then show ?thesis
      unfolding gp cd payloadLoop_append by (cases "payloadLoop (oor w1) types pre [] []") simp_all
  qed
  have ok: "map_of types k \<noteq> None"
    if "snd (snd (generatePayload omni w req)) = Inr req'" and "k \<in> fst ` set (ColumnData req)"
    for req' k
  proof -
    from that(1) obtain p where "payloadLoop (oor w1) types (ColumnData req) [] [] = Inr p"
      unfolding gp by (cases "payloadLoop (oor w1) types (ColumnData req) [] []") simp_all
    from payloadLoop_present [OF this that(2)] show ?thesis
      by (cases "map_of types k") (simp_all add: lookup_def)
  qed
  from first ok show ?thesis by blast
qed

theorem unknown_column_rejected_witness:
  "snd (snd (generatePayload exampleOmni
       (exampleWorld [''cache/alerts.status.json'' \<mapsto> Schema alertsSchema])
       (writeRequest ''alerts/status'' [(''Severity'', GInt 4), (''Nodee'', GString ''x'')])))
   = Inl (Error ''Column not found: Nodee'')"
proof -
  let ?w = "exampleWorld [''cache/alerts.status.json'' \<mapsto> Schema alertsSchema]"
  let ?req = "writeRequest ''alerts/status'' [(''Severity'', GInt 4), (''Nodee'', GString ''x'')]"
  have ty: "alertsSchema = readTypes ?w (cachePath (PayloadStructCacheDir exampleOmni) ''alerts'' ''status'')"
    by (simp add: example_types)
  have cd: "ColumnData ?req = [(''Severity'', GInt 4)] @ (''Nodee'', GString ''x'') # []
              \<and> map_of alertsSchema ''Nodee'' = None"
    by (simp add: writeRequest_def alertsSchema_def)
  have pre: "payloadLoop (oor ?w) alertsSchema [(''Severity'', GInt 4)] [] []
               = Inr \<lparr>coldesc = [[(''type'', GString ''integer''), (''name'', GString ''Severity'')]],
                       rows = [[(''Severity'', GInt 4)]]\<rparr>"
    by (simp add: columnStep_def alertsSchema_def lookup_def)
  from unknown_column_rejected [OF example_hit example_split ty] cd
  have "snd (snd (generatePayload exampleOmni ?w ?req)) =
          (case payloadLoop (oor ?w) alertsSchema [(''Severity'', GInt 4)] [] [] of
             Inl f \<Rightarrow> Inl f
           | Inr p \<Rightarrow> Inl (Error (''Column not found: '' @ ''Nodee'')))"
    by blast
  with pre show ?thesis by simp
qed

text \<open>
  The claim as written fails: when a column visited earlier has a value that does not
  convert, the error is that column's, and the missing column is not named.
\<close>

theorem unknown_column_rejected_counterexample:
  "snd (snd (generatePayload exampleOmni
       (exampleWorld [''cache/alerts.status.json'' \<mapsto> Schema alertsSchema])
       (writeRequest ''alerts/status'' [(''Severity'', GString ''high''), (''Nodee'', GString ''x'')])))
   = Inl (Error ''Couldn't convert column value to integer: high (integer)'')"
  apply (subst generatePayload_loop [OF example_hit example_split])
  apply (simp add: example_types)
  apply (simp add: writeRequest_def)
  apply (simp add: columnStep_def alertsSchema_def lookup_def Atoi_def digit_def)
  done

subsection \<open>C6: the tag of a catalog type code\<close>

text \<open>
  Claim C6, as the code has it. A catalog row gives its column the tag \<^verbatim>\<open>"utc"\<close> for
  the type code 1, \<^verbatim>\<open>"string"\<close> for 2 and 10, and \<^verbatim>\<open>"integer"\<close> for every other
  code; the tag is what the schema holds for the column afterwards, when no later row
  names the same column.
\<close>

theorem schema_tag:
  assumes "schemaLoop (pre @ GMap m # post) types = Inr types'"
    and "lookup m ''DataType'' = GFloat64 dt"
    and "lookup m ''ColumnName'' = GString cn"
    and "\<forall>m'. GMap m' \<in> set post \<longrightarrow> lookup m' ''ColumnName'' \<noteq> GString cn"
  shows "lookup types' cn =
           GString (if dt = Finite 1 then ''utc''
                    else if dt = Finite 2 \<or> dt = Finite 10 then ''string''
                    else ''integer'')"
proof -
  from assms(1) obtain t1 where t1: "schemaLoop pre types = Inr t1"
    and rest: "schemaLoop (GMap m # post) t1 = Inr types'"
    by (auto simp: schemaLoop_append split: sum.splits)
  from rest assms(2,3)
  have "schemaLoop post (AList.update cn (GString (typeTag dt)) t1) = Inr types'"
    by simp
  from schemaLoop_other [OF this assms(4)]
  have "lookup types' cn = GString (typeTag dt)"
    by (simp add: lookup_update)
  then show ?thesis by (simp add: typeTag_def)
qed

theorem schema_tag_witness:
  "schemaLoop [GMap [(''ColumnName'', GString ''Severity''), (''DataType'', GFloat64 (Finite 99))],
               GMap [(''ColumnName'', GString ''LastOccurrence''), (''DataType'', GFloat64 (Finite 1))]]
              [] = Inr [(''Severity'', GString ''integer''), (''LastOccurrence'', GString ''utc'')]
   \<and> lookup [(''Severity'', GString ''integer''), (''LastOccurrence'', GString ''utc'')] ''Severity''
       = GString ''integer''"
proof -
  let ?m = "[(''ColumnName'', GString ''Severity''), (''DataType'', GFloat64 (Finite 99))]"
  let ?m2 = "[(''ColumnName'', GString ''LastOccurrence''), (''DataType'', GFloat64 (Finite 1))]"
  let ?t = "[(''Severity'', GString ''integer''), (''LastOccurrence'', GString ''utc'')]"
  have run: "schemaLoop ([] @ GMap ?m # [GMap ?m2]) [] = Inr ?t"
    by (simp add: lookup_def typeTag_def)
  have "lookup ?t ''Severity'' =
          GString (if Finite 99 = Finite 1 then ''utc''
                   else if Finite 99 = Finite 2 \<or> Finite 99 = Finite 10 then ''string''
                   else ''integer'')"
    by (rule schema_tag [OF run]) (simp_all add: lookup_def)
  with run show ?thesis by simp
qed

text \<open>
  The claim as written fails: the tag for the type code 1 is \<^verbatim>\<open>"utc"\<close>, which is
  what the cache file and the column descriptors of a payload carry, not
  \<^verbatim>\<open>"timestamp"\<close>.
\<close>

theorem schema_tag_counterexample:
  "typeTag (Finite 1) \<noteq> ''timestamp''
   \<and> schemaLoop [GMap [(''ColumnName'', GString ''LastOccurrence''), (''DataType'', GFloat64 (Finite 1))]] []
       = Inr [(''LastOccurrence'', GString ''utc'')]"
  by (simp add: typeTag_def lookup_def)

subsection \<open>C7: a table path that is no pair\<close>

text \<open>
  Claim C7, as the code has it. For a table path that does not split at \<^verbatim>\<open>/\<close> into
  exactly two segments, payload synthesis fails, and so does \<^verbatim>\<open>SendRequest\<close> for a
  \<^verbatim>\<open>POST\<close> or \<^verbatim>\<open>PATCH\<close>, without sending anything. The error is the
  cache-directory error when \<^verbatim>\<open>os.Stat\<close> reports the cache directory as not existing
  and \<^verbatim>\<open>os.MkdirAll\<close> fails, which \<^verbatim>\<open>createCacheDir\<close> finds before the path is
  looked at; in every other case (the directory is there, it has just been made, or
  \<^verbatim>\<open>os.Stat\<close> fails with another error) it is the path-format error.
\<close>

theorem bad_path_rejected:
  assumes "length (Split (DBPath req) CHR ''/'') \<noteq> 2"
  shows "(let d = (if PayloadStructCacheDir omni = [] then ''cache/omniinterface/payloadstructs''
                   else PayloadStructCacheDir omni);
              msg = (if dirStat w d = StatNotExist \<and> \<not> canMkdir w d
                     then ''Couldn't create payload structure cache directory''
                     else ''DBPath is not a path: Format db/table'')
          in snd (snd (generatePayload omni w req)) = Inl (Error msg)
             \<and> (Method req = ''POST'' \<or> Method req = ''PATCH'' \<longrightarrow>
                  snd (snd (SendRequest omni w req)) = Inl (Error msg)
                  \<and> sent (fst (snd (SendRequest omni w req))) = sent w))"
proof -
  obtain o1 w1 e where ccd: "createCacheDir omni w = (o1, w1, e)"
    by (cases "createCacheDir omni w") auto
  from createCacheDir_result [of omni w] ccd
  have e: "e = (let d = (if PayloadStructCacheDir omni = [] then ''cache/omniinterface/payloadstructs''
               else PayloadStructCacheDir omni)
      in if dirStat w d = StatNotExist \<and> \<not> canMkdir w d
         then Some (Error ''Couldn't create payload structure cache directory'')
         else None)"
    by simp
  from createCacheDir_frame [OF ccd] have s: "sent w1 = sent w" by simp
  have gp: "generatePayload omni w req =
              (o1, w1, Inl (case e of Some err \<Rightarrow> err
                            | None \<Rightarrow> Error ''DBPath is not a path: Format db/table''))"
    using generatePayload_bad_path [OF assms, of omni w] ccd by (cases e) simp_all
  then have sr: "SendRequest omni w req =
              (o1, w1, Inl (case e of Some err \<Rightarrow> err
                            | None \<Rightarrow> Error ''DBPath is not a path: Format db/table''))"
    if "Method req = ''POST'' \<or> Method req = ''PATCH''"
    using that by (simp add: SendRequest_def)
  show ?thesis
    unfolding Let_def using gp sr s e by (auto simp: Let_def)
qed

theorem bad_path_rejected_witness:
  "snd (snd (SendRequest exampleOmni (exampleWorld Map.empty) (writeRequest ''alerts'' [(''Severity'', GInt 4)])))
     = Inl (Error ''DBPath is not a path: Format db/table'')
   \<and> snd (snd (generatePayload exampleOmni (exampleWorld Map.empty)
             (writeRequest ''alerts/status/extra'' [(''Severity'', GInt 4)])))
     = Inl (Error ''DBPath is not a path: Format db/table'')
   \<and> snd (snd (generatePayload exampleOmni (readOnlyWorld\<lparr>dirStat := (\<lambda>d. StatOther)\<rparr>)
             (writeRequest ''alerts'' [(''Severity'', GInt 4)])))
     = Inl (Error ''DBPath is not a path: Format db/table'')"
proof -
  have l1: "length (Split (DBPath (writeRequest ''alerts'' [(''Severity'', GInt 4)])) CHR ''/'') \<noteq> 2"
    by (simp add: writeRequest_def)
  have l2: "length (Split (DBPath (writeRequest ''alerts/status/extra'' [(''Severity'', GInt 4)])) CHR ''/'') \<noteq> 2"
    by (simp add: writeRequest_def)
  from bad_path_rejected [OF l1, of exampleOmni "exampleWorld Map.empty"]
       bad_path_rejected [OF l2, of exampleOmni "exampleWorld Map.empty"]
       bad_path_rejected [OF l1, of exampleOmni "readOnlyWorld\<lparr>dirStat := (\<lambda>d. StatOther)\<rparr>"]
  show ?thesis
    by (simp add: Let_def exampleOmni_def exampleWorld_def readOnlyWorld_def writeRequest_def)
qed

text \<open>
  The claim as written fails: where \<^verbatim>\<open>os.Stat\<close> reports the cache directory as not
  existing and it cannot be made, the error for a bad path is the cache-directory error.
\<close>

theorem bad_path_rejected_counterexample:
  "snd (snd (generatePayload exampleOmni readOnlyWorld (writeRequest ''alerts'' [(''Severity'', GInt 4)])))
     = Inl (Error ''Couldn't create payload structure cache directory'')"
  by (simp add: generatePayload_def getPayloadStructure_def createCacheDir_def exampleOmni_def
        readOnlyWorld_def Let_def)

subsection \<open>C8: string columns, one descriptor per column, one row\<close>

text \<open>
  Claim C8. Take a request whose columns are all in the schema \<open>types\<close>, each either
  with a declared type other than the two numeric tags (\<^verbatim>\<open>"string"\<close> is the one the
  catalog gives), whatever its value, or with a numeric tag and a value the coercion
  accepts. Then \<^verbatim>\<open>generatePayload\<close> returns a payload, both when the cache file of
  the table is there and holds \<open>types\<close> and, more generally, whenever the schema lookup
  returns nil and \<open>types\<close> is what is read back. The payload has exactly one column
  descriptor per column of the request, with the declared type and the name, and
  exactly one row, with one entry per column: the raw value itself, unchanged, for every
  column that is not numeric (so for every \<^verbatim>\<open>"string"\<close> column and every value, the
  empty string too), and the coerced integer for a numeric column.
\<close>

theorem payload_synthesis:
  assumes "Split (DBPath req) CHR ''/'' = [db, tbl]"
    and "distinct (map fst (ColumnData req))"
    and "\<forall>(k, v) \<in> set (ColumnData req). lookup types k \<noteq> GNil
           \<and> (lookup types k = GString ''integer'' \<or> lookup types k = GString ''utc'' \<longrightarrow>
                (\<exists>n. v = GInt n) \<or> (\<exists>n. v = GInt64 n) \<or> (\<exists>f. v = GFloat64 f)
                \<or> (\<exists>s n. v = GString s \<and> Atoi s = Some n))"
  shows "(let pay = (\<lambda>conv.
                \<lparr>coldesc = map (\<lambda>(k, v). [(''type'', lookup types k), (''name'', GString k)])
                             (ColumnData req),
                 rows = [map (\<lambda>(k, v). (k,
                           if lookup types k = GString ''integer'' \<or> lookup types k = GString ''utc''
                           then (case v of
                                   GString s \<Rightarrow> (case Atoi s of Some n \<Rightarrow> GInt n | None \<Rightarrow> v)
                                 | GFloat64 f \<Rightarrow> GInt (float64ToInt conv f)
                                 | _ \<Rightarrow> v)
                           else v)) (ColumnData req)]\<rparr>);
              d = (if PayloadStructCacheDir omni = [] then ''cache/omniinterface/payloadstructs''
                   else PayloadStructCacheDir omni)
          in ((dirStat w d \<noteq> StatNotExist \<or> canMkdir w d)
                \<and> files w (cachePath d db tbl) = Some (Schema types)
              \<longrightarrow> snd (snd (generatePayload omni w req)) = Inr (req\<lparr>Payload := Some (pay (oor w))\<rparr>))
             \<and> (\<forall>omni1 w1. getPayloadStructure omni w req = (omni1, w1, None)
                    \<and> readTypes w1 (cachePath (PayloadStructCacheDir omni1) db tbl) = types
                  \<longrightarrow> generatePayload omni w req
                        = (omni1, w1, Inr (req\<lparr>Payload := Some (pay (oor w1))\<rparr>))))"
proof -
  have loop: "payloadLoop conv types (ColumnData req) [] [] =
           Inr \<lparr>coldesc = map (\<lambda>(k, v). [(''type'', lookup types k), (''name'', GString k)])
                             (ColumnData req),
                rows = [map (\<lambda>(k, v). (k,
                   if lookup types k = GString ''integer'' \<or> lookup types k = GString ''utc''
                   then (case v of
                           GString s \<Rightarrow> (case Atoi s of Some n \<Rightarrow> GInt n | None \<Rightarrow> v)
                         | GFloat64 f \<Rightarrow> GInt (float64ToInt conv f)
                         | _ \<Rightarrow> v)
                   else v)) (ColumnData req)]\<rparr>" for conv
    using payloadLoop_value_all [OF assms(2) _ assms(3), of "[]" conv "[]"] by simp
  have hit: "snd (snd (generatePayload omni w req)) =
               (case payloadLoop (oor w) types (ColumnData req) [] [] of
                  Inl f \<Rightarrow> Inl f
                | Inr p \<Rightarrow> Inr (req\<lparr>Payload := Some p\<rparr>))"
    if "d = (if PayloadStructCacheDir omni = [] then ''cache/omniinterface/payloadstructs''
             else PayloadStructCacheDir omni)"
      and "dirStat w d \<noteq> StatNotExist \<or> canMkdir w d"
      and "files w (cachePath d db tbl) = Some (Schema types)" for d
  proof -
    from createCacheDir_ok [OF that(1,2)] obtain omni1 w1
      where ccd: "createCacheDir omni w = (omni1, w1, None)"
        and d: "PayloadStructCacheDir omni1 = d" by blast
    from that(3) d have f: "files w (cachePath (PayloadStructCacheDir omni1) db tbl) = Some (Schema types)"
      by simp
    then have "readTypes w (cachePath (PayloadStructCacheDir omni1) db tbl) = types"
      by (simp add: readTypes_def)
    with generatePayload_cached [OF ccd assms(1) f] show ?thesis by simp
  qed
  have miss: "generatePayload omni w req =
                (omni1, w1,
                 case payloadLoop (oor w1) types (ColumnData req) [] [] of
                   Inl f \<Rightarrow> Inl f
                 | Inr p \<Rightarrow> Inr (req\<lparr>Payload := Some p\<rparr>))"
    if "getPayloadStructure omni w req = (omni1, w1, None)"
      and "readTypes w1 (cachePath (PayloadStructCacheDir omni1) db tbl) = types" for omni1 w1
    using generatePayload_loop [OF that(1) assms(1)] that(2) by simp
  show ?thesis
    unfolding Let_def using hit miss by (simp add: loop)
qed

theorem payload_synthesis_witness:
  "snd (snd (generatePayload exampleOmni
       (exampleWorld [''cache/alerts.status.json'' \<mapsto> Schema alertsSchema])
       (writeRequest ''alerts/status''
          [(''Severity'', GInt 4), (''Summary'', GString []), (''LastOccurrence'', GString ''1700000000'')])))
   = Inr (writeRequest ''alerts/status''
            [(''Severity'', GInt 4), (''Summary'', GString []), (''LastOccurrence'', GString ''1700000000'')]
          \<lparr>Payload := Some
             \<lparr>coldesc = [[(''type'', GString ''integer''), (''name'', GString ''Severity'')],
                         [(''type'', GString ''string''), (''name'', GString ''Summary'')],
                         [(''type'', GString ''utc''), (''name'', GString ''LastOccurrence'')]],
              rows = [[(''Severity'', GInt 4), (''Summary'', GString []),
                       (''LastOccurrence'', GInt 1700000000)]]\<rparr>\<rparr>)"
proof -
  let ?w = "exampleWorld [''cache/alerts.status.json'' \<mapsto> Schema alertsSchema]"
  let ?cd = "[(''Severity'', GInt 4), (''Summary'', GString []), (''LastOccurrence'', GString ''1700000000'')]"
  let ?req = "writeRequest ''alerts/status'' ?cd"
  have a: "Atoi ''1700000000'' = Some 1700000000"
    by (simp add: Atoi_def digit_def minInt_def maxInt_def)
  have d: "distinct (map fst (ColumnData ?req))"
    by (simp add: writeRequest_def)
  have cols: "\<forall>(k, v) \<in> set (ColumnData ?req). lookup alertsSchema k \<noteq> GNil
           \<and> (lookup alertsSchema k = GString ''integer'' \<or> lookup alertsSchema k = GString ''utc'' \<longrightarrow>
                (\<exists>n. v = GInt n) \<or> (\<exists>n. v = GInt64 n) \<or> (\<exists>f. v = GFloat64 f)
                \<or> (\<exists>s n. v = GString s \<and> Atoi s = Some n))"
    by (simp add: writeRequest_def alertsSchema_def lookup_def a)
  have dir: "dirStat ?w ''cache'' \<noteq> StatNotExist \<or> canMkdir ?w ''cache''"
    by (simp add: exampleWorld_def)
  have cached: "files ?w (cachePath ''cache'' ''alerts'' ''status'') = Some (Schema alertsSchema)"
    by (simp add: exampleWorld_def cachePath_def)
  have cfg: "PayloadStructCacheDir exampleOmni = ''cache''"
    by (simp add: exampleOmni_def)
  from payload_synthesis [OF example_split d cols, of exampleOmni ?w, unfolded Let_def cfg] dir cached
  have "snd (snd (generatePayload exampleOmni ?w ?req)) =
          Inr (?req\<lparr>Payload := Some
             \<lparr>coldesc = map (\<lambda>(k, v). [(''type'', lookup alertsSchema k), (''name'', GString k)])
                          (ColumnData ?req),
              rows = [map (\<lambda>(k, v). (k,
                        if lookup alertsSchema k = GString ''integer'' \<or> lookup alertsSchema k = GString ''utc''
                        then (case v of
                                GString s \<Rightarrow> (case Atoi s of Some n \<Rightarrow> GInt n | None \<Rightarrow> v)
                              | GFloat64 f \<Rightarrow> GInt (float64ToInt (oor ?w) f)
                              | _ \<Rightarrow> v)
                        else v)) (ColumnData ?req)]\<rparr>\<rparr>)"
    by simp
  then show ?thesis
    by (simp add: writeRequest_def alertsSchema_def lookup_def a)
qed

subsection \<open>C9: a cache entry is never replaced\<close>

text \<open>
  Claim C9. A cache file that exists before \<^verbatim>\<open>SendRequest\<close> exists unchanged after
  it, whatever the request and its outcome; and when the schema lookup sends a request,
  it is the one catalog request, and the cache file of the target table did not exist.
\<close>

theorem schema_cache_permanent:
  "(SendRequest omni w req = (omni', w', r) \<and> files w p = Some c \<longrightarrow> files w' p = Some c)
   \<and> (getPayloadStructure omni w req = (omni1, w1, e) \<and> sent w1 \<noteq> sent w \<longrightarrow>
        (\<exists>db tbl. Split (DBPath req) CHR ''/'' = [db, tbl]
           \<and> files w (cachePath (PayloadStructCacheDir omni1) db tbl) = None
           \<and> sent w1 = sent w @ [catalogRequest omni1 w db tbl]))"
  using SendRequest_keeps getPayloadStructure_fetch by blast

theorem schema_cache_permanent_witness:
  "files (fst (snd (SendRequest exampleOmni
       (exampleWorld [''cache/alerts.status.json'' \<mapsto> Schema alertsSchema])
       (writeRequest ''alerts/status'' [(''Severity'', GInt 4)]))))
     ''cache/alerts.status.json'' = Some (Schema alertsSchema)"
proof -
  let ?w = "exampleWorld [''cache/alerts.status.json'' \<mapsto> Schema alertsSchema]"
  let ?req = "writeRequest ''alerts/status'' [(''Severity'', GInt 4)]"
  let ?x = "SendRequest exampleOmni ?w ?req"
  have run: "?x = (fst ?x, fst (snd ?x), snd (snd ?x))" by simp
  have f: "files ?w ''cache/alerts.status.json'' = Some (Schema alertsSchema)"
    by (simp add: exampleWorld_def)
  from schema_cache_permanent [of exampleOmni ?w ?req "fst ?x" "fst (snd ?x)" "snd (snd ?x)"
         "''cache/alerts.status.json''" "Schema alertsSchema"] run f
  show ?thesis by blast
qed

subsection \<open>C10: the nil value in a numeric column\<close>

text \<open>
  Claim C10, as the code has it. When the request gives the nil value to a column whose
  declared type is \<^verbatim>\<open>"integer"\<close> or \<^verbatim>\<open>"utc"\<close>, the call never returns a payload:
  it panics at that column, in \<^verbatim>\<open>reflect.TypeOf(v).String()\<close>, unless a column
  visited before it has already failed, and then the failure is that column's.
\<close>

theorem nil_numeric_column:
  assumes "getPayloadStructure omni w req = (omni1, w1, None)"
    and "Split (DBPath req) CHR ''/'' = [db, tbl]"
    and "types = readTypes w1 (cachePath (PayloadStructCacheDir omni1) db tbl)"
    and "ColumnData req = pre @ (k, GNil) # post"
    and "lookup types k = GString ''integer'' \<or> lookup types k = GString ''utc''"
  shows "snd (snd (generatePayload omni w req)) =
           (case payloadLoop (oor w1) types pre [] [] of
              Inl f \<Rightarrow> Inl f
            | Inr p \<Rightarrow> Inl (Panic nilDeref))"
  using assms columnStep_nil [OF assms(5), of "oor w1"]
  by (simp add: generatePayload_loop payloadLoop_append split: sum.splits)

theorem nil_numeric_column_witness:
  "snd (snd (generatePayload exampleOmni
       (exampleWorld [''cache/alerts.status.json'' \<mapsto> Schema alertsSchema])
       (writeRequest ''alerts/status'' [(''LastOccurrence'', GNil)])))
   = Inl (Panic nilDeref)"
proof -
  let ?w = "exampleWorld [''cache/alerts.status.json'' \<mapsto> Schema alertsSchema]"
  let ?req = "writeRequest ''alerts/status'' [(''LastOccurrence'', GNil)]"
  have ty: "alertsSchema = readTypes ?w (cachePath (PayloadStructCacheDir exampleOmni) ''alerts'' ''status'')"
    by (simp add: example_types)
  have cd: "ColumnData ?req = [] @ (''LastOccurrence'', GNil) # []"
    by (simp add: writeRequest_def)
  have tag: "lookup alertsSchema ''LastOccurrence'' = GString ''integer''
             \<or> lookup alertsSchema ''LastOccurrence'' = GString ''utc''"
    by (simp add: alertsSchema_def lookup_def)
  from nil_numeric_column [OF example_hit example_split ty cd tag]
  show ?thesis by simp
qed

text \<open>
  The claim as written fails: when a column the schema does not have is visited first,
  the call returns the error for that column and does not panic.
\<close>

theorem nil_numeric_column_counterexample:
  "snd (snd (generatePayload exampleOmni
       (exampleWorld [''cache/alerts.status.json'' \<mapsto> Schema alertsSchema])
       (writeRequest ''alerts/status'' [(''Nodee'', GString ''x''), (''Severity'', GNil)])))
   = Inl (Error ''Column not found: Nodee'')"
  apply (subst generatePayload_loop [OF example_hit example_split])
  apply (simp add: example_types)
  apply (simp add: writeRequest_def)
  apply (simp add: columnStep_def alertsSchema_def lookup_def)
  done

end
